theory Spec2Isabelle
  imports
    Main
    "HOL-Library.Finite_Map"
    "HOL-Library.Char_ord"
    "HOL-Library.List_Lexorder"
begin

section \<open>The logging engine of GinService\<close>

text \<open>
  A shallow embedding of the package \<open>logger\<close>: the level and entry model, the two
  formatters (\<open>formatters.go\<close>), the console, file and multi handlers and the
  configuration (\<open>config.go\<close>), and the logger itself (\<open>NewLogger\<close>, \<open>log\<close>,
  \<open>Debug\<close> .. \<open>Fatal\<close>, \<open>WithContext\<close>, \<open>WithFields\<close>).

  Go strings and byte slices are \<open>string\<close> (lists of 8-bit characters). Everything
  the code does to its surroundings (the sinks, the heap of maps, the clock) is a field
  of the record \<open>World\<close> that every effectful function takes and returns. A call that
  may panic returns an \<open>outcome\<close>, and a method of the logger, which may also end the
  process, an \<open>ending\<close>: a panic or an exit leaves the function at once, with the world
  as it is at that moment. The mutexes are not modelled: the functions below are the
  sequential behaviour of one call.
\<close>

subsection \<open>Levels\<close>

type_synonym Level = int

definition DebugLevel :: Level where "DebugLevel = 0"
definition InfoLevel :: Level where "InfoLevel = 1"
definition WarnLevel :: Level where "WarnLevel = 2"
definition ErrorLevel :: Level where "ErrorLevel = 3"
definition FatalLevel :: Level where "FatalLevel = 4"

lemmas Level_defs = DebugLevel_def InfoLevel_def WarnLevel_def ErrorLevel_def FatalLevel_def

definition Level_String :: "Level \<Rightarrow> string" where
  "Level_String l =
     (if l = DebugLevel then ''DEBUG''
      else if l = InfoLevel then ''INFO''
      else if l = WarnLevel then ''WARN''
      else if l = ErrorLevel then ''ERROR''
      else if l = FatalLevel then ''FATAL''
      else ''UNKNOWN'')"

subsection \<open>Values, fields, entries\<close>

text \<open>
  \<open>Fields\<close> is \<open>map[string]interface{}\<close>. The dynamic values are the kinds below:
  nil, booleans, integers, strings, slices of values (\<open>VSlice\<close> a slice that is not
  nil, \<open>VNilSlice\<close> the nil slice), and a channel (identified by its address) standing
  for the kinds that \<open>encoding/json\<close> cannot encode. Floating-point numbers, byte
  slices, maps and structs as values are outside the model.
\<close>

datatype Value =
    VNil
  | VBool bool
  | VInt int
  | VString string
  | VSlice "Value list"
  | VChan nat
  | VNilSlice

type_synonym Fields = "(string, Value) fmap"

type_synonym ref = nat

text \<open>
  A Go \<open>error\<close> is an interface value; a nil error is \<open>None\<close>. \<open>Err s\<close> is an error
  whose method \<open>Error()\<close> returns \<open>s\<close>: the errors of \<open>errors.New\<close>, \<open>fmt.Errorf\<close>,
  \<open>encoding/json\<close> and the operating system. \<open>NilPointer\<close> is an error value whose
  \<open>Error()\<close> panics: a non-nil interface value that holds a nil pointer of a type
  whose \<open>Error()\<close> reads a field of its receiver. The panic is \<open>None\<close> below.
\<close>

datatype error = Err string | NilPointer

definition error_Error :: "error \<Rightarrow> string option" where
  "error_Error e = (case e of Err s \<Rightarrow> Some s | NilPointer \<Rightarrow> None)"

text \<open>
  How a call ends. A function that may panic returns \<open>Returns x\<close> or \<open>Panics\<close>; a
  method of the logger returns to its caller, ends the process with an exit status, or
  panics.
\<close>

datatype 'a outcome = Returns 'a | Panics

datatype ending = Returned | Exited int | Panicked

datatype Context = Background | WithValue Context string string

record Time =
  year :: nat
  month :: nat
  day :: nat
  hour :: nat
  minute :: nat
  second :: nat
  nanosecond :: nat
  zone_offset :: int

text \<open>
  An entry holds a reference to its fields map (\<open>None\<close> is the nil map), as in Go,
  where a map value is a pointer to the map's storage.
\<close>

record Entry =
  Level :: Level
  Timestamp :: Time
  Message :: string
  Fields :: "ref option"
  Error :: "error option"
  Context :: "Context option"

subsection \<open>Formatters, handlers, configuration, logger: the data\<close>

datatype Formatter =
    JSONFormatter (AddCaller: bool) (AddStack: bool)
  | TextFormatter (AddCaller: bool) (AddStack: bool)

record lumberjack_Logger =
  Filename :: string
  MaxSize :: int
  MaxBackups :: int
  MaxAge :: int
  Compress :: bool

text \<open>
  A sink is where a handler's bytes go: one of the two console streams, or the rotating
  writer of a file handler.
\<close>

datatype Sink = Stdout | Stderr | Rotating lumberjack_Logger

datatype Handler =
    ConsoleHandler Sink Formatter
  | FileHandler lumberjack_Logger Formatter
  | MultiHandler "Handler list"

record Config =
  cfg_Level :: Level
  cfg_Format :: string
  cfg_Output :: string
  cfg_FilePath :: string
  cfg_MaxSize :: int
  cfg_MaxBackups :: int
  cfg_MaxAge :: int
  cfg_Compress :: bool
  cfg_AddCaller :: bool
  cfg_AddStack :: bool

record logger =
  config :: Config
  handler :: Handler
  logger_fields :: "ref option"

record Frame =
  frame_file :: string
  frame_line :: nat
  frame_func :: string

subsection \<open>The world\<close>

text \<open>
  \<^item> \<open>written s\<close>: the bytes delivered to sink \<open>s\<close> so far;
  \<^item> \<open>write_error s\<close>: \<open>Some text\<close> when a write to \<open>s\<close> fails with an error of
    that text, and then \<open>short_write s\<close> is the number of bytes that still get through;
  \<^item> \<open>heap\<close>, \<open>next_ref\<close>: the storage of the \<open>Fields\<close> maps and the next free address;
  \<^item> \<open>clock\<close>, \<open>ticks\<close>: the value the n-th call of \<open>time.Now\<close> returns, and the number
    of calls so far;
  \<^item> \<open>frames\<close>: the call stack that \<open>runtime.Caller\<close> reports inside \<open>Format\<close>,
    indexed by the number of frames skipped;
  \<^item> \<open>mkdir_error\<close>: the text of the error of \<open>os.MkdirAll\<close> on a directory, if it
    fails, and \<open>path_dir\<close> the function \<open>filepath.Dir\<close>;
  \<^item> \<open>range_order\<close>: the order in which a \<open>range\<close> loop of this run visits the keys
    of a map (Go leaves it unspecified);
  \<^item> \<open>handled\<close>: every call of a handler's \<open>Handle\<close> so far, in order.
\<close>

record World =
  written :: "Sink \<Rightarrow> string"
  write_error :: "Sink \<Rightarrow> string option"
  short_write :: "Sink \<Rightarrow> nat"
  heap :: "ref \<Rightarrow> Fields"
  next_ref :: ref
  clock :: "nat \<Rightarrow> Time"
  ticks :: nat
  frames :: "Frame list"
  mkdir_error :: "string \<Rightarrow> string option"
  path_dir :: "string \<Rightarrow> string"
  range_order :: "Fields \<Rightarrow> string list"
  handled :: "(Handler \<times> Entry) list"

definition time_Now :: "World \<Rightarrow> Time \<times> World" where
  "time_Now w = (clock w (ticks w), w\<lparr>ticks := Suc (ticks w)\<rparr>)"

definition os_Exit :: "int \<Rightarrow> World \<Rightarrow> ending \<times> World" where
  "os_Exit code w = (Exited code, w)"

definition runtime_Caller :: "World \<Rightarrow> nat \<Rightarrow> Frame option" where
  "runtime_Caller w skip = (if skip < length (frames w) then Some (frames w ! skip) else None)"

definition Write :: "Sink \<Rightarrow> string \<Rightarrow> World \<Rightarrow> error option \<times> World" where
  "Write s data w =
     (case write_error w s of
        None \<Rightarrow> (None, w\<lparr>written := (written w)(s := written w s @ data)\<rparr>)
      | Some text \<Rightarrow>
          (Some (Err text),
           w\<lparr>written := (written w)(s := written w s @ take (short_write w s) data)\<rparr>))"

subsection \<open>Maps on the heap\<close>

definition deref :: "World \<Rightarrow> ref option \<Rightarrow> Fields" where
  "deref w r = (case r of None \<Rightarrow> fmempty | Some a \<Rightarrow> heap w a)"

definition make_Fields :: "World \<Rightarrow> ref \<times> World" where
  "make_Fields w =
     (next_ref w, w\<lparr>heap := (heap w)(next_ref w := fmempty), next_ref := Suc (next_ref w)\<rparr>)"

definition map_assign :: "ref \<Rightarrow> string \<Rightarrow> Value \<Rightarrow> World \<Rightarrow> World" where
  "map_assign dst k v w = w\<lparr>heap := (heap w)(dst := fmupd k v (heap w dst))\<rparr>"

text \<open>
  The keys of a map in the order of a \<open>range\<close> loop: the order of this run when it
  lists every key once, the increasing order otherwise.
\<close>

definition range_keys :: "World \<Rightarrow> Fields \<Rightarrow> string list" where
  "range_keys w m =
     (if distinct (range_order w m) \<and> fset_of_list (range_order w m) = fmdom m
      then range_order w m
      else sorted_list_of_fset (fmdom m))"

text \<open>
  \<open>for k, v := range src { dst[k] = v }\<close>. The copying loops visit the keys in
  increasing order: their result does not depend on the order (\<open>fold_assign_heap\<close>
  holds for every list of the keys). A key that is gone when its turn comes is skipped.
\<close>

definition assign_key :: "ref option \<Rightarrow> ref \<Rightarrow> string \<Rightarrow> World \<Rightarrow> World" where
  "assign_key src dst k w =
     (case fmlookup (deref w src) k of
        Some v \<Rightarrow> map_assign dst k v w
      | None \<Rightarrow> w)"

definition range_assign :: "ref option \<Rightarrow> ref \<Rightarrow> World \<Rightarrow> World" where
  "range_assign src dst w =
     fold (assign_key src dst) (sorted_list_of_fset (fmdom (deref w src))) w"

subsection \<open>Library functions used by the formatters\<close>

text \<open>
  The parts of the Go standard library that the formatters call, written out for the
  values of the model: decimal and hexadecimal digits (\<open>strconv\<close>, \<open>fmt\<close>),
  \<open>strings.Join\<close>, \<open>strings.ToUpper\<close> on ASCII, \<open>filepath.Base\<close>, the two layouts
  of \<open>Time.Format\<close>, and the verb \<open>%v\<close>.
\<close>

definition digit_char :: "nat \<Rightarrow> char" where
  "digit_char d = char_of (48 + d)"

function decimal :: "nat \<Rightarrow> string" where
  "decimal n = (if n < 10 then [digit_char n] else decimal (n div 10) @ [digit_char (n mod 10)])"
  by pat_completeness auto
termination
  by (relation "measure id") auto

declare decimal.simps [simp del]

definition strconv_Itoa :: "int \<Rightarrow> string" where
  "strconv_Itoa i = (if i < 0 then CHR ''-'' # decimal (nat (- i)) else decimal (nat i))"

definition hex_digit :: "nat \<Rightarrow> char" where
  "hex_digit d = (if d < 10 then char_of (48 + d) else char_of (87 + d))"

function hexadecimal :: "nat \<Rightarrow> string" where
  "hexadecimal n =
     (if n < 16 then [hex_digit n] else hexadecimal (n div 16) @ [hex_digit (n mod 16)])"
  by pat_completeness auto
termination
  by (relation "measure id") auto

declare hexadecimal.simps [simp del]

definition appendInt :: "nat \<Rightarrow> nat \<Rightarrow> string" where
  "appendInt x width = replicate (width - length (decimal x)) CHR ''0'' @ decimal x"

fun strings_Join :: "string list \<Rightarrow> string \<Rightarrow> string" where
  "strings_Join [] sep = []"
| "strings_Join [x] sep = x"
| "strings_Join (x # y # ys) sep = x @ sep @ strings_Join (y # ys) sep"

definition strings_ToUpper :: "string \<Rightarrow> string" where
  "strings_ToUpper s =
     map (\<lambda>c. if CHR ''a'' \<le> c \<and> c \<le> CHR ''z'' then char_of (of_char c - (32::nat)) else c) s"

definition strip_slashes :: "string \<Rightarrow> string" where
  "strip_slashes p = rev (dropWhile (\<lambda>c. c = CHR ''/'') (rev p))"

definition filepath_Base :: "string \<Rightarrow> string" where
  "filepath_Base p =
     (if p = [] then ''.''
      else if strip_slashes p = [] then ''/''
      else rev (takeWhile (\<lambda>c. c \<noteq> CHR ''/'') (rev (strip_slashes p))))"

text \<open>
  The zone of the layouts \<open>Z07:00\<close>: \<open>Z\<close> for UTC, otherwise the sign and the offset
  in hours and minutes. Go divides the offset in seconds by 60 rounding towards zero.
\<close>

definition format_zone :: "int \<Rightarrow> string" where
  "format_zone offset =
     (if offset = 0 then ''Z''
      else let zone = (if offset < 0 then - ((- offset) div 60) else offset div 60)
           in (if zone < 0 then ''-'' else ''+'')
              @ appendInt (nat \<bar>zone\<bar> div 60) 2 @ '':'' @ appendInt (nat \<bar>zone\<bar> mod 60) 2)"

definition format_date_time :: "Time \<Rightarrow> string" where
  "format_date_time t =
     appendInt (year t) 4 @ ''-'' @ appendInt (month t) 2 @ ''-'' @ appendInt (day t) 2
     @ ''T'' @ appendInt (hour t) 2 @ '':'' @ appendInt (minute t) 2
     @ '':'' @ appendInt (second t) 2"

definition Time_Format_RFC3339 :: "Time \<Rightarrow> string" where
  "Time_Format_RFC3339 t = format_date_time t @ format_zone (zone_offset t)"

definition Time_Format_millis :: "Time \<Rightarrow> string" where
  "Time_Format_millis t =
     format_date_time t @ ''.'' @ appendInt (nanosecond t div 1000000 mod 1000) 3
     @ format_zone (zone_offset t)"

fun fmt_v :: "Value \<Rightarrow> string" where
  "fmt_v VNil = ''<nil>''"
| "fmt_v (VBool b) = (if b then ''true'' else ''false'')"
| "fmt_v (VInt i) = strconv_Itoa i"
| "fmt_v (VString s) = s"
| "fmt_v (VSlice vs) = ''['' @ strings_Join (map fmt_v vs) '' '' @ '']''"
| "fmt_v (VChan a) = ''0x'' @ hexadecimal a"
| "fmt_v VNilSlice = ''[]''"

definition frame_location :: "Frame \<Rightarrow> string" where
  "frame_location fr = filepath_Base (frame_file fr) @ '':'' @ decimal (frame_line fr)"

text \<open>
  The items of a map in increasing key order: the order in which \<open>encoding/json\<close>
  writes the members of a map.
\<close>

definition sorted_items :: "Fields \<Rightarrow> (string \<times> Value) list" where
  "sorted_items m =
     concat (map (\<lambda>k. case fmlookup m k of Some v \<Rightarrow> [(k, v)] | None \<Rightarrow> [])
                 (sorted_list_of_fset (fmdom m)))"

subsection \<open>\<open>json.Marshal\<close>\<close>

text \<open>
  The string encoder of \<open>encoding/json\<close> with HTML escaping on (the default of
  \<open>json.Marshal\<close>). A byte below \<open>0x80\<close> is copied when it is printable and none of
  \<open>"\<close>, \<open>&\<close>, \<open><\<close>, \<open>>\<close> and the backslash, and is escaped otherwise. From
  \<open>0x80\<close> on the encoder decodes one UTF-8 sequence: a byte that starts no valid
  sequence becomes the escape of U+FFFD, the line and paragraph separators are escaped, and
  every other sequence is copied. Backspace and form feed are written in their short
  form, as the current encoder does; the six-character form of older releases reads
  back as the same byte.
\<close>

definition htmlSafe :: "char \<Rightarrow> bool" where
  "htmlSafe c =
     ((0x20::nat) \<le> of_char c \<and> c \<noteq> CHR 0x22 \<and> c \<noteq> CHR ''&'' \<and> c \<noteq> CHR ''<''
      \<and> c \<noteq> CHR ''>'' \<and> c \<noteq> CHR 0x5C)"

definition escape_byte :: "char \<Rightarrow> string" where
  "escape_byte c =
     (if htmlSafe c then [c]
      else if c = CHR 0x5C \<or> c = CHR 0x22 then [CHR 0x5C, c]
      else if c = CHR 0x08 then [CHR 0x5C, CHR ''b'']
      else if c = CHR 0x0C then [CHR 0x5C, CHR ''f'']
      else if c = CHR 0x0A then [CHR 0x5C, CHR ''n'']
      else if c = CHR 0x0D then [CHR 0x5C, CHR ''r'']
      else if c = CHR 0x09 then [CHR 0x5C, CHR ''t'']
      else [CHR 0x5C, CHR ''u'', CHR ''0'', CHR ''0'',
            hex_digit (of_char c div 16), hex_digit (of_char c mod 16)])"

text \<open>
  The first byte of a UTF-8 sequence gives its length and the range of its second byte.
\<close>

definition utf8_first :: "nat \<Rightarrow> (nat \<times> nat \<times> nat) option" where
  "utf8_first x =
     (if 0xC2 \<le> x \<and> x \<le> 0xDF then Some (2, 0x80, 0xBF)
      else if x = 0xE0 then Some (3, 0xA0, 0xBF)
      else if 0xE1 \<le> x \<and> x \<le> 0xEC then Some (3, 0x80, 0xBF)
      else if x = 0xED then Some (3, 0x80, 0x9F)
      else if x = 0xEE \<or> x = 0xEF then Some (3, 0x80, 0xBF)
      else if x = 0xF0 then Some (4, 0x90, 0xBF)
      else if 0xF1 \<le> x \<and> x \<le> 0xF3 then Some (4, 0x80, 0xBF)
      else if x = 0xF4 then Some (4, 0x80, 0x8F)
      else None)"

definition continuation :: "char \<Rightarrow> bool" where
  "continuation c = ((0x80::nat) \<le> of_char c \<and> (of_char c :: nat) \<le> 0xBF)"

text \<open>
  \<open>utf8.DecodeRuneInString\<close>: the length of the valid sequence at the head of the
  string, \<open>None\<close> where Go returns \<open>(RuneError, 1)\<close>.
\<close>

definition utf8_rune_size :: "string \<Rightarrow> nat option" where
  "utf8_rune_size s =
     (case s of
        [] \<Rightarrow> None
      | a # rest \<Rightarrow>
          (case utf8_first (of_char a) of
             None \<Rightarrow> None
           | Some (n, lo, hi) \<Rightarrow>
               (case rest of
                  [] \<Rightarrow> None
                | b # bs \<Rightarrow>
                    if lo \<le> of_char b \<and> of_char b \<le> hi \<and> n - 2 \<le> length bs
                       \<and> list_all continuation (take (n - 2) bs)
                    then Some n else None)))"

lemma utf8_first_size: "utf8_first x = Some (n, lo, hi) \<Longrightarrow> 2 \<le> n \<and> n \<le> 4 \<and> 0x80 \<le> lo \<and> x \<ge> 0xC2"
  by (auto simp: utf8_first_def split: if_splits)

lemma utf8_rune_size_bounds:
  "utf8_rune_size s = Some n \<Longrightarrow> 2 \<le> n \<and> n \<le> 4 \<and> n \<le> length s"
  by (auto simp: utf8_rune_size_def split: list.splits option.splits if_splits
           dest: utf8_first_size)

definition line_separator :: string where
  "line_separator = [CHR 0xE2, CHR 0x80, CHR 0xA8]"

definition paragraph_separator :: string where
  "paragraph_separator = [CHR 0xE2, CHR 0x80, CHR 0xA9]"

function json_escape :: "string \<Rightarrow> string" where
  "json_escape [] = []"
| "json_escape (c # cs) =
     (if (of_char c :: nat) < 0x80 then escape_byte c @ json_escape cs
      else case utf8_rune_size (c # cs) of
             None \<Rightarrow> CHR 0x5C # ''ufffd'' @ json_escape cs
           | Some n \<Rightarrow>
               (if take n (c # cs) = line_separator then CHR 0x5C # ''u2028''
                else if take n (c # cs) = paragraph_separator then CHR 0x5C # ''u2029''
                else take n (c # cs))
               @ json_escape (drop n (c # cs)))"
  by pat_completeness auto
termination
  by (relation "measure length") (auto dest: utf8_rune_size_bounds)

declare json_escape.simps(2) [simp del]

definition json_quote :: "string \<Rightarrow> string" where
  "json_quote s = CHR 0x22 # json_escape s @ [CHR 0x22]"

definition comma :: "bool \<Rightarrow> string" where
  "comma first = (if first then [] else '','')"

text \<open>
  The value encoder. \<open>first\<close> is \<open>i = 0\<close> in the loops that write a comma before every
  element but the first. The first value that cannot be encoded aborts the whole call
  with its error.
\<close>

fun marshal_Value :: "Value \<Rightarrow> error + string"
  and marshal_Values :: "bool \<Rightarrow> Value list \<Rightarrow> error + string" where
  "marshal_Value VNil = Inr ''null''"
| "marshal_Value (VBool b) = Inr (if b then ''true'' else ''false'')"
| "marshal_Value (VInt i) = Inr (strconv_Itoa i)"
| "marshal_Value (VString s) = Inr (json_quote s)"
| "marshal_Value (VSlice vs) =
     (case marshal_Values True vs of
        Inl e \<Rightarrow> Inl e
      | Inr s \<Rightarrow> Inr (''['' @ s @ '']''))"
| "marshal_Value (VChan a) = Inl (Err ''json: unsupported type: chan int'')"
| "marshal_Value VNilSlice = Inr ''null''"
| "marshal_Values first [] = Inr []"
| "marshal_Values first (v # vs) =
     (case marshal_Value v of
        Inl e \<Rightarrow> Inl e
      | Inr s \<Rightarrow>
          (case marshal_Values False vs of
             Inl e \<Rightarrow> Inl e
           | Inr t \<Rightarrow> Inr (comma first @ s @ t)))"

fun marshal_members :: "bool \<Rightarrow> (string \<times> Value) list \<Rightarrow> error + string" where
  "marshal_members first [] = Inr []"
| "marshal_members first ((k, v) # kvs) =
     (case marshal_Value v of
        Inl e \<Rightarrow> Inl e
      | Inr s \<Rightarrow>
          (case marshal_members False kvs of
             Inl e \<Rightarrow> Inl e
           | Inr t \<Rightarrow> Inr (comma first @ json_quote k @ '':'' @ s @ t)))"

definition json_Marshal :: "Fields \<Rightarrow> error + string" where
  "json_Marshal data =
     (case marshal_members True (sorted_items data) of
        Inl e \<Rightarrow> Inl e
      | Inr s \<Rightarrow> Inr (''{'' @ s @ ''}''))"

subsection \<open>The formatters (\<open>formatters.go\<close>)\<close>

text \<open>
  \<open>for k, v := range entry.Fields { data[k] = v }\<close> on the local map \<open>data\<close>, in
  increasing key order: the result is \<open>data\<close> overlaid with the fields whatever the
  order (\<open>range_put_fold\<close> holds for every list of items with distinct keys).
\<close>

definition range_put :: "Fields \<Rightarrow> Fields \<Rightarrow> Fields" where
  "range_put src data = fold (\<lambda>(k, v) d. fmupd k v d) (sorted_items src) data"

definition stack_frames :: "World \<Rightarrow> nat \<Rightarrow> Frame list" where
  "stack_frames w n =
     concat (map (\<lambda>i. case runtime_Caller w (i + 3) of Some fr \<Rightarrow> [fr] | None \<Rightarrow> [])
                 [0..<n])"

text \<open>
  \<open>JSONFormatter.Format\<close> in its two steps: the map \<open>data\<close> that it fills, and the
  call of \<open>json.Marshal\<close> on it. The call \<open>entry.Error.Error()\<close> is the one statement
  of the body that may panic; the statements after it are then not reached.
\<close>

definition JSONFormatter_data :: "bool \<Rightarrow> bool \<Rightarrow> World \<Rightarrow> Entry \<Rightarrow> Fields outcome" where
  "JSONFormatter_data addCaller addStack w entry =
     (let data = fmupd ''message'' (VString (Message entry))
                  (fmupd ''timestamp'' (VString (Time_Format_RFC3339 (Timestamp entry)))
                    (fmupd ''level'' (VString (Level_String (Level entry))) fmempty));
          data = (if 0 < fcard (fmdom (deref w (Fields entry)))
                  then range_put (deref w (Fields entry)) data else data)
      in case (case Error entry of
                 Some err \<Rightarrow>
                   (case error_Error err of
                      Some text \<Rightarrow> Returns (fmupd ''error'' (VString text) data)
                    | None \<Rightarrow> Panics)
               | None \<Rightarrow> Returns data) of
           Panics \<Rightarrow> Panics
         | Returns data \<Rightarrow>
             (let data = (if addCaller
                          then (case runtime_Caller w 3 of
                                  Some fr \<Rightarrow>
                                    fmupd ''function'' (VString (frame_func fr))
                                      (fmupd ''caller'' (VString (frame_location fr)) data)
                                | None \<Rightarrow> data)
                          else data);
                  data = (if addStack \<and> Error entry \<noteq> None
                          then (let stack = map (\<lambda>fr. frame_location fr @ '' '' @ frame_func fr)
                                                (stack_frames w 10)
                                in if 0 < length stack
                                   then fmupd ''stack'' (VSlice (map VString stack)) data
                                   else data)
                          else data)
              in Returns data))"

definition JSONFormatter_Format ::
  "bool \<Rightarrow> bool \<Rightarrow> World \<Rightarrow> Entry \<Rightarrow> (error + string) outcome" where
  "JSONFormatter_Format addCaller addStack w entry =
     (case JSONFormatter_data addCaller addStack w entry of
        Panics \<Rightarrow> Panics
      | Returns data \<Rightarrow> Returns (json_Marshal data))"

text \<open>
  \<open>TextFormatter.Format\<close>. It prints the fields in the order in which this run ranges
  over the map. Its last statement returns the line with a nil error; before that, the
  call \<open>entry.Error.Error()\<close> may panic.
\<close>

definition ranged_items :: "World \<Rightarrow> Fields \<Rightarrow> (string \<times> Value) list" where
  "ranged_items w m =
     concat (map (\<lambda>k. case fmlookup m k of Some v \<Rightarrow> [(k, v)] | None \<Rightarrow> [])
                 (range_keys w m))"

definition TextFormatter_Format ::
  "bool \<Rightarrow> bool \<Rightarrow> World \<Rightarrow> Entry \<Rightarrow> (error + string) outcome" where
  "TextFormatter_Format addCaller addStack w entry =
     (let parts = [Time_Format_millis (Timestamp entry)];
          parts = parts @ [''['' @ strings_ToUpper (Level_String (Level entry)) @ '']''];
          parts = (if addCaller
                   then (case runtime_Caller w 3 of
                           Some fr \<Rightarrow>
                             parts @ [''('' @ frame_location fr @ '' '' @ frame_func fr @ '')'']
                         | None \<Rightarrow> parts)
                   else parts);
          parts = parts @ [Message entry];
          parts = (if 0 < fcard (fmdom (deref w (Fields entry)))
                   then parts @ [''{'' @ strings_Join
                                   (map (\<lambda>(k, v). k @ ''='' @ fmt_v v)
                                        (ranged_items w (deref w (Fields entry)))) '' ''
                                 @ ''}'']
                   else parts)
      in case (case Error entry of
                 Some err \<Rightarrow>
                   (case error_Error err of
                      Some text \<Rightarrow> Returns (parts @ [''error='' @ text])
                    | None \<Rightarrow> Panics)
               | None \<Rightarrow> Returns parts) of
           Panics \<Rightarrow> Panics
         | Returns parts \<Rightarrow>
             (let parts = (if addStack \<and> Error entry \<noteq> None
                           then (let stack = map (\<lambda>fr. ''  '' @ frame_location fr @ '' '' @ frame_func fr)
                                                 (stack_frames w 5)
                                 in if 0 < length stack
                                    then (parts @ [CHR 0x0A # ''Stack trace:'']) @ stack
                                    else parts)
                           else parts)
              in Returns (Inr (strings_Join parts '' '' @ [CHR 0x0A]))))"

text \<open>The method \<open>Format\<close> of the interface \<open>Formatter\<close>.\<close>

fun Format :: "Formatter \<Rightarrow> World \<Rightarrow> Entry \<Rightarrow> (error + string) outcome" where
  "Format (JSONFormatter addCaller addStack) w entry = JSONFormatter_Format addCaller addStack w entry"
| "Format (TextFormatter addCaller addStack) w entry = TextFormatter_Format addCaller addStack w entry"

subsection \<open>The handlers (\<open>config.go\<close>)\<close>

definition NewConsoleHandler :: "string \<Rightarrow> Formatter \<Rightarrow> error + Handler" where
  "NewConsoleHandler out formatter =
     (if out = ''stdout'' then Inr (ConsoleHandler Stdout formatter)
      else if out = ''stderr'' then Inr (ConsoleHandler Stderr formatter)
      else Inl (Err (''unsupported console output: '' @ out)))"

definition NewFileHandler :: "Config \<Rightarrow> Formatter \<Rightarrow> error + Handler" where
  "NewFileHandler c formatter =
     Inr (FileHandler \<lparr>Filename = cfg_FilePath c, MaxSize = cfg_MaxSize c,
                       MaxBackups = cfg_MaxBackups c, MaxAge = cfg_MaxAge c,
                       Compress = cfg_Compress c\<rparr> formatter)"

definition NewMultiHandler :: "Handler list \<Rightarrow> Handler" where
  "NewMultiHandler handlers = MultiHandler handlers"

definition enter_Handle :: "Handler \<Rightarrow> Entry \<Rightarrow> World \<Rightarrow> World" where
  "enter_Handle h entry w = w\<lparr>handled := handled w @ [(h, entry)]\<rparr>"

text \<open>
  \<open>Handle\<close> of the three handlers; \<open>MultiHandler_loop\<close> is the loop of
  \<open>MultiHandler.Handle\<close> over the remaining handlers, with the variable \<open>lastErr\<close>.
  Every call is first recorded in \<open>handled\<close>. A panic of the formatter, or of a member
  of a multi handler, leaves \<open>Handle\<close> at once (the deferred unlocking of the mutex
  has no effect on the world).
\<close>

fun Handle :: "Handler \<Rightarrow> Entry \<Rightarrow> World \<Rightarrow> error option outcome \<times> World"
  and MultiHandler_loop ::
    "Handler list \<Rightarrow> Entry \<Rightarrow> error option \<Rightarrow> World \<Rightarrow> error option outcome \<times> World"
  where
  "Handle (ConsoleHandler out formatter) entry w =
     (let w1 = enter_Handle (ConsoleHandler out formatter) entry w
      in case Format formatter w1 entry of
           Panics \<Rightarrow> (Panics, w1)
         | Returns (Inl err) \<Rightarrow> (Returns (Some err), w1)
         | Returns (Inr data) \<Rightarrow> (case Write out data w1 of (err, w2) \<Rightarrow> (Returns err, w2)))"
| "Handle (FileHandler writer formatter) entry w =
     (let w1 = enter_Handle (FileHandler writer formatter) entry w
      in case Format formatter w1 entry of
           Panics \<Rightarrow> (Panics, w1)
         | Returns (Inl err) \<Rightarrow> (Returns (Some err), w1)
         | Returns (Inr data) \<Rightarrow>
             (case Write (Rotating writer) data w1 of (err, w2) \<Rightarrow> (Returns err, w2)))"
| "Handle (MultiHandler handlers) entry w =
     MultiHandler_loop handlers entry None (enter_Handle (MultiHandler handlers) entry w)"
| "MultiHandler_loop [] entry lastErr w = (Returns lastErr, w)"
| "MultiHandler_loop (h # hs) entry lastErr w =
     (case Handle h entry w of
        (Panics, w') \<Rightarrow> (Panics, w')
      | (Returns (Some err), w') \<Rightarrow> MultiHandler_loop hs entry (Some err) w'
      | (Returns None, w') \<Rightarrow> MultiHandler_loop hs entry lastErr w')"

subsection \<open>The configuration and the logger\<close>

definition DefaultConfig :: Config where
  "DefaultConfig =
     \<lparr>cfg_Level = InfoLevel, cfg_Format = ''json'', cfg_Output = ''stdout'',
      cfg_FilePath = ''logs/app.log'', cfg_MaxSize = 100, cfg_MaxBackups = 3,
      cfg_MaxAge = 28, cfg_Compress = True, cfg_AddCaller = True, cfg_AddStack = False\<rparr>"

text \<open>
  \<open>Validate\<close> writes through the pointer it receives: the configuration it returns is
  the one the caller holds afterwards.
\<close>

definition Config_Validate :: "Config \<Rightarrow> World \<Rightarrow> error option \<times> Config" where
  "Config_Validate c w =
     (let c = (if cfg_Level c < DebugLevel \<or> cfg_Level c > FatalLevel
               then c\<lparr>cfg_Level := InfoLevel\<rparr> else c);
          c = (if cfg_Format c \<noteq> ''json'' \<and> cfg_Format c \<noteq> ''text''
               then c\<lparr>cfg_Format := ''json''\<rparr> else c);
          c = (if cfg_Output c \<noteq> ''stdout'' \<and> cfg_Output c \<noteq> ''stderr'' \<and> cfg_Output c \<noteq> ''file''
               then c\<lparr>cfg_Output := ''stdout''\<rparr> else c)
      in if cfg_Output c = ''file''
         then (case mkdir_error w (path_dir w (cfg_FilePath c)) of
                 Some text \<Rightarrow> (Some (Err text), c)
               | None \<Rightarrow> (None, c))
         else (None, c))"

definition NewLogger :: "Config \<Rightarrow> World \<Rightarrow> (error + logger) \<times> World" where
  "NewLogger c0 w =
     (case Config_Validate c0 w of
        (Some err, c) \<Rightarrow> (Inl err, w)
      | (None, c) \<Rightarrow>
          (let formatter =
                 (if cfg_Format c = ''json'' then JSONFormatter (cfg_AddCaller c) (cfg_AddStack c)
                  else if cfg_Format c = ''text'' then TextFormatter (cfg_AddCaller c) (cfg_AddStack c)
                  else JSONFormatter (cfg_AddCaller c) (cfg_AddStack c));
               made =
                 (if cfg_Output c = ''stdout'' \<or> cfg_Output c = ''stderr''
                  then NewConsoleHandler (cfg_Output c) formatter
                  else if cfg_Output c = ''file'' then NewFileHandler c formatter
                  else NewConsoleHandler ''stdout'' formatter)
           in case made of
                Inl err \<Rightarrow> (Inl err, w)
              | Inr h \<Rightarrow>
                  (let (r, w1) = make_Fields w
                   in (Inr \<lparr>config = c, handler = h, logger_fields = Some r\<rparr>, w1))))"

text \<open>
  The block that \<open>log\<close> and \<open>WithFields\<close> share: a new map, filled from the logger's
  fields and then from the fields of the call.
\<close>

definition merge_fields :: "ref option \<Rightarrow> ref option \<Rightarrow> World \<Rightarrow> ref \<times> World" where
  "merge_fields base extra w =
     (let (m, w1) = make_Fields w;
          w2 = range_assign base m w1;
          w3 = range_assign extra m w2
      in (m, w3))"

text \<open>The entry that \<open>log\<close> builds once the level has passed the threshold.\<close>

definition log_entry ::
  "logger \<Rightarrow> Context option \<Rightarrow> Level \<Rightarrow> string \<Rightarrow> error option \<Rightarrow> ref option \<Rightarrow> World \<Rightarrow> Entry \<times> World" where
  "log_entry l ctx level msg err flds w =
     (let (baseFields, w3) = merge_fields (logger_fields l) flds w;
          (now, w4) = time_Now w3
      in (\<lparr>Level = level, Timestamp = now, Message = msg,
           Fields = Some baseFields, Error = err, Context = ctx\<rparr>, w4))"

text \<open>The entry of the fallback: the zero value for the fields and the context.\<close>

definition fallback_entry :: "error \<Rightarrow> Time \<Rightarrow> Entry" where
  "fallback_entry err now =
     \<lparr>Level = ErrorLevel, Timestamp = now, Message = ''Failed to write log entry'',
      Fields = None, Error = Some err, Context = None\<rparr>"

text \<open>
  \<open>log\<close>. The error of the fallback handler's constructor is dropped (a nil handler
  would make the call of \<open>Handle\<close> panic), and so is what the fallback's \<open>Handle\<close>
  returns.
\<close>

definition logger_log ::
  "logger \<Rightarrow> Context option \<Rightarrow> Level \<Rightarrow> string \<Rightarrow> error option \<Rightarrow> ref option \<Rightarrow> World
     \<Rightarrow> ending \<times> World" where
  "logger_log l ctx level msg err flds w =
     (if level < cfg_Level (config l) then (Returned, w)
      else
        (let (entry, w4) = log_entry l ctx level msg err flds w
         in case Handle (handler l) entry w4 of
              (Panics, w5) \<Rightarrow> (Panicked, w5)
            | (Returns None, w5) \<Rightarrow> (Returned, w5)
            | (Returns (Some err'), w5) \<Rightarrow>
                (let made = NewConsoleHandler ''stderr'' (TextFormatter False False);
                     (now, w6) = time_Now w5
                 in case made of
                      Inl _ \<Rightarrow> (Panicked, w6)
                    | Inr fallbackHandler \<Rightarrow>
                        (case Handle fallbackHandler (fallback_entry err' now) w6 of
                           (Panics, w7) \<Rightarrow> (Panicked, w7)
                         | (Returns _, w7) \<Rightarrow> (Returned, w7)))))"

definition logger_Debug ::
  "logger \<Rightarrow> Context option \<Rightarrow> string \<Rightarrow> ref option \<Rightarrow> World \<Rightarrow> ending \<times> World" where
  "logger_Debug l ctx msg flds w = logger_log l ctx DebugLevel msg None flds w"

definition logger_Info ::
  "logger \<Rightarrow> Context option \<Rightarrow> string \<Rightarrow> ref option \<Rightarrow> World \<Rightarrow> ending \<times> World" where
  "logger_Info l ctx msg flds w = logger_log l ctx InfoLevel msg None flds w"

definition logger_Warn ::
  "logger \<Rightarrow> Context option \<Rightarrow> string \<Rightarrow> ref option \<Rightarrow> World \<Rightarrow> ending \<times> World" where
  "logger_Warn l ctx msg flds w = logger_log l ctx WarnLevel msg None flds w"

definition logger_Error ::
  "logger \<Rightarrow> Context option \<Rightarrow> string \<Rightarrow> error option \<Rightarrow> ref option \<Rightarrow> World \<Rightarrow> ending \<times> World" where
  "logger_Error l ctx msg err flds w = logger_log l ctx ErrorLevel msg err flds w"

text \<open>
  \<open>Fatal\<close>: the statement \<open>os.Exit(1)\<close> is reached when the call of \<open>log\<close> has
  returned.
\<close>

definition logger_Fatal ::
  "logger \<Rightarrow> Context option \<Rightarrow> string \<Rightarrow> error option \<Rightarrow> ref option \<Rightarrow> World \<Rightarrow> ending \<times> World" where
  "logger_Fatal l ctx msg err flds w =
     (case logger_log l ctx FatalLevel msg err flds w of
        (Returned, w') \<Rightarrow> os_Exit 1 w'
      | (Exited code, w') \<Rightarrow> (Exited code, w')
      | (Panicked, w') \<Rightarrow> (Panicked, w'))"

definition logger_WithContext :: "logger \<Rightarrow> Context option \<Rightarrow> World \<Rightarrow> logger \<times> World" where
  "logger_WithContext l ctx w =
     (\<lparr>config = config l, handler = handler l, logger_fields = logger_fields l\<rparr>, w)"

definition logger_WithFields :: "logger \<Rightarrow> ref option \<Rightarrow> World \<Rightarrow> logger \<times> World" where
  "logger_WithFields l flds w =
     (let (newFields, w3) = merge_fields (logger_fields l) flds w
      in (\<lparr>config = config l, handler = handler l, logger_fields = Some newFields\<rparr>, w3))"

subsection \<open>Reading JSON\<close>

text \<open>
  A parser for JSON texts whose numbers are integers, the reader of what
  \<open>json.Marshal\<close> writes for the values of the model: a number with a fraction or an
  exponent is not read (the text is rejected), and neither is a number with a leading
  zero. White space is skipped before every token; a string is read
  with its escapes, a \<open>\u\<close> escape becoming the UTF-8 encoding of its code unit
  (surrogate pairs are not combined; \<open>json.Marshal\<close> writes none). The first argument
  of \<open>parse_value\<close>, \<open>parse_items\<close> and \<open>parse_members\<close> bounds the depth of the
  recursion; \<open>parse_json\<close> gives more than the length of the text, which is always enough
  for a text that \<open>json.Marshal\<close> wrote (\<open>parse_json_Marshal\<close>).
\<close>

datatype JSON =
    JNull
  | JBool bool
  | JNumber int
  | JString string
  | JArray "JSON list"
  | JObject "(string \<times> JSON) list"

definition is_space :: "char \<Rightarrow> bool" where
  "is_space c = (c = CHR '' '' \<or> c = CHR 0x09 \<or> c = CHR 0x0A \<or> c = CHR 0x0D)"

definition skip_space :: "string \<Rightarrow> string" where
  "skip_space s = dropWhile is_space s"

definition is_digit :: "char \<Rightarrow> bool" where
  "is_digit c = (CHR ''0'' \<le> c \<and> c \<le> CHR ''9'')"

definition hex_value :: "char \<Rightarrow> nat option" where
  "hex_value c =
     (if is_digit c then Some (of_char c - 48)
      else if CHR ''a'' \<le> c \<and> c \<le> CHR ''f'' then Some (of_char c - 87)
      else if CHR ''A'' \<le> c \<and> c \<le> CHR ''F'' then Some (of_char c - 55)
      else None)"

definition hex4 :: "char \<Rightarrow> char \<Rightarrow> char \<Rightarrow> char \<Rightarrow> nat option" where
  "hex4 a b c d =
     (case (hex_value a, hex_value b, hex_value c, hex_value d) of
        (Some x, Some y, Some z, Some u) \<Rightarrow> Some (((x * 16 + y) * 16 + z) * 16 + u)
      | _ \<Rightarrow> None)"

definition utf8_encode :: "nat \<Rightarrow> string" where
  "utf8_encode cp =
     (if cp < 0x80 then [char_of cp]
      else if cp < 0x800 then [char_of (0xC0 + cp div 64), char_of (0x80 + cp mod 64)]
      else [char_of (0xE0 + cp div 4096), char_of (0x80 + cp div 64 mod 64),
            char_of (0x80 + cp mod 64)])"

definition unescape :: "char \<Rightarrow> char option" where
  "unescape e =
     (if e = CHR 0x22 \<or> e = CHR 0x5C \<or> e = CHR ''/'' then Some e
      else if e = CHR ''b'' then Some (CHR 0x08)
      else if e = CHR ''f'' then Some (CHR 0x0C)
      else if e = CHR ''n'' then Some (CHR 0x0A)
      else if e = CHR ''r'' then Some (CHR 0x0D)
      else if e = CHR ''t'' then Some (CHR 0x09)
      else None)"

definition prepend :: "string \<Rightarrow> (string \<times> string) option \<Rightarrow> (string \<times> string) option" where
  "prepend bs r = (case r of None \<Rightarrow> None | Some (s, rest) \<Rightarrow> Some (bs @ s, rest))"

fun unquote :: "string \<Rightarrow> (string \<times> string) option" where
  "unquote [] = None"
| "unquote (c # cs) =
     (if c = CHR 0x22 then Some ([], cs)
      else if c = CHR 0x5C then
        (case cs of
           [] \<Rightarrow> None
         | e # r \<Rightarrow>
             if e = CHR ''u'' then
               (case r of
                  h1 # h2 # h3 # h4 # r' \<Rightarrow>
                    (case hex4 h1 h2 h3 h4 of
                       None \<Rightarrow> None
                     | Some cp \<Rightarrow> prepend (utf8_encode cp) (unquote r'))
                | _ \<Rightarrow> None)
             else (case unescape e of
                     None \<Rightarrow> None
                   | Some x \<Rightarrow> prepend [x] (unquote r)))
      else if (of_char c :: nat) < 0x20 then None
      else prepend [c] (unquote cs))"

definition digits_value :: "string \<Rightarrow> nat" where
  "digits_value ds = fold (\<lambda>c n. n * 10 + (of_char c - 48)) ds 0"

definition parse_number :: "string \<Rightarrow> (JSON \<times> string) option" where
  "parse_number s =
     (let neg = (s \<noteq> [] \<and> hd s = CHR ''-'');
          t = (if neg then tl s else s);
          ds = takeWhile is_digit t
      in if ds = [] \<or> (hd ds = CHR ''0'' \<and> tl ds \<noteq> []) then None
         else Some (JNumber (if neg then - int (digits_value ds) else int (digits_value ds)),
                    dropWhile is_digit t))"

definition expect :: "string \<Rightarrow> JSON \<Rightarrow> string \<Rightarrow> (JSON \<times> string) option" where
  "expect lit v s = (if take (length lit) s = lit then Some (v, drop (length lit) s) else None)"

fun parse_value :: "nat \<Rightarrow> string \<Rightarrow> (JSON \<times> string) option"
  and parse_items :: "nat \<Rightarrow> bool \<Rightarrow> string \<Rightarrow> (JSON list \<times> string) option"
  and parse_members :: "nat \<Rightarrow> bool \<Rightarrow> string \<Rightarrow> ((string \<times> JSON) list \<times> string) option"
  where
  "parse_value 0 s = None"
| "parse_value (Suc n) s =
     (case skip_space s of
        [] \<Rightarrow> None
      | c # cs \<Rightarrow>
          if c = CHR ''n'' then expect ''ull'' JNull cs
          else if c = CHR ''t'' then expect ''rue'' (JBool True) cs
          else if c = CHR ''f'' then expect ''alse'' (JBool False) cs
          else if c = CHR 0x22 then
            (case unquote cs of None \<Rightarrow> None | Some (x, r) \<Rightarrow> Some (JString x, r))
          else if c = CHR ''['' then
            (case parse_items n True cs of None \<Rightarrow> None | Some (xs, r) \<Rightarrow> Some (JArray xs, r))
          else if c = CHR ''{'' then
            (case parse_members n True cs of None \<Rightarrow> None | Some (kvs, r) \<Rightarrow> Some (JObject kvs, r))
          else if c = CHR ''-'' \<or> is_digit c then parse_number (c # cs)
          else None)"
| "parse_items 0 first s = None"
| "parse_items (Suc n) first s =
     (case skip_space s of
        [] \<Rightarrow> None
      | c # cs \<Rightarrow>
          if c = CHR '']'' then Some ([], cs)
          else if \<not> first \<and> c \<noteq> CHR '','' then None
          else (case parse_value n (if first then c # cs else cs) of
                  None \<Rightarrow> None
                | Some (x, r) \<Rightarrow>
                    (case parse_items n False r of
                       None \<Rightarrow> None
                     | Some (xs, r') \<Rightarrow> Some (x # xs, r'))))"
| "parse_members 0 first s = None"
| "parse_members (Suc n) first s =
     (case skip_space s of
        [] \<Rightarrow> None
      | c # cs \<Rightarrow>
          if c = CHR ''}'' then Some ([], cs)
          else if \<not> first \<and> c \<noteq> CHR '','' then None
          else (case skip_space (if first then c # cs else cs) of
                  [] \<Rightarrow> None
                | q # t \<Rightarrow>
                    if q \<noteq> CHR 0x22 then None
                    else (case unquote t of
                            None \<Rightarrow> None
                          | Some (k, r) \<Rightarrow>
                              (case skip_space r of
                                 [] \<Rightarrow> None
                               | d # r' \<Rightarrow>
                                   if d \<noteq> CHR '':'' then None
                                   else (case parse_value n r' of
                                           None \<Rightarrow> None
                                         | Some (x, r'') \<Rightarrow>
                                             (case parse_members n False r'' of
                                                None \<Rightarrow> None
                                              | Some (kvs, r3) \<Rightarrow> Some ((k, x) # kvs, r3)))))))"

definition parse_json :: "string \<Rightarrow> JSON option" where
  "parse_json s =
     (case parse_value (Suc (length s)) s of
        None \<Rightarrow> None
      | Some (v, rest) \<Rightarrow> if skip_space rest = [] then Some v else None)"

text \<open>
  What a reader of JSON gets back from a Go string: the string with every byte that
  starts no valid UTF-8 sequence replaced by U+FFFD, as the encoder writes it. A string
  is valid UTF-8 when that changes nothing.
\<close>

definition replacement :: string where
  "replacement = [CHR 0xEF, CHR 0xBF, CHR 0xBD]"

function ToValidUTF8 :: "string \<Rightarrow> string" where
  "ToValidUTF8 [] = []"
| "ToValidUTF8 (c # cs) =
     (if (of_char c :: nat) < 0x80 then c # ToValidUTF8 cs
      else case utf8_rune_size (c # cs) of
             None \<Rightarrow> replacement @ ToValidUTF8 cs
           | Some n \<Rightarrow> take n (c # cs) @ ToValidUTF8 (drop n (c # cs)))"
  by pat_completeness auto
termination
  by (relation "measure length") (auto dest: utf8_rune_size_bounds)

declare ToValidUTF8.simps(2) [simp del]

definition valid_utf8 :: "string \<Rightarrow> bool" where
  "valid_utf8 s = (ToValidUTF8 s = s)"

text \<open>
  The JSON value that the encoding of a Go value reads back as (\<open>json_read\<close>), and the
  JSON value that a Go value denotes (\<open>json_of\<close>; a nil slice denotes null, as a nil
  value does); they agree when the strings of the value are valid UTF-8. A channel has
  no encoding; both functions are only used on values that \<open>json.Marshal\<close> accepts
  (\<open>marshalable\<close>).
\<close>

fun json_read :: "Value \<Rightarrow> JSON" where
  "json_read VNil = JNull"
| "json_read (VBool b) = JBool b"
| "json_read (VInt i) = JNumber i"
| "json_read (VString s) = JString (ToValidUTF8 s)"
| "json_read (VSlice vs) = JArray (map json_read vs)"
| "json_read (VChan a) = JNull"
| "json_read VNilSlice = JNull"

fun json_of :: "Value \<Rightarrow> JSON" where
  "json_of VNil = JNull"
| "json_of (VBool b) = JBool b"
| "json_of (VInt i) = JNumber i"
| "json_of (VString s) = JString s"
| "json_of (VSlice vs) = JArray (map json_of vs)"
| "json_of (VChan a) = JNull"
| "json_of VNilSlice = JNull"

fun utf8_value :: "Value \<Rightarrow> bool" where
  "utf8_value (VString s) = valid_utf8 s"
| "utf8_value (VSlice vs) = list_all utf8_value vs"
| "utf8_value v = True"

fun marshalable :: "Value \<Rightarrow> bool" where
  "marshalable (VChan a) = False"
| "marshalable (VSlice vs) = list_all marshalable vs"
| "marshalable v = True"

definition read_member :: "string \<times> Value \<Rightarrow> string \<times> JSON" where
  "read_member kv = (ToValidUTF8 (fst kv), json_read (snd kv))"

subsection \<open>Notions used to state the properties\<close>

text \<open>
  The calls of \<open>Handle\<close> that one call of \<open>Handle\<close> on \<open>h\<close> makes, itself included,
  in order: a multi handler calls each of its members.
\<close>

fun calls_of :: "Handler \<Rightarrow> Entry \<Rightarrow> (Handler \<times> Entry) list" where
  "calls_of (MultiHandler hs) e = (MultiHandler hs, e) # concat (map (\<lambda>h. calls_of h e) hs)"
| "calls_of h e = [(h, e)]"

text \<open>
  Calling every handler of a list once, in list order, whatever the earlier ones
  returned: the results in order, and the world at the end.
\<close>

fun member_results ::
  "Handler list \<Rightarrow> Entry \<Rightarrow> World \<Rightarrow> error option outcome list \<times> World" where
  "member_results [] e w = ([], w)"
| "member_results (h # hs) e w =
     (let (r, w1) = Handle h e w; (rs, w2) = member_results hs e w1 in (r # rs, w2))"

text \<open>
  The last error of a list of results: the last error of the later results if there is
  one, and otherwise the first result if it is a returned error; \<open>None\<close> when no
  result is a returned error.
\<close>

fun last_error :: "error option outcome list \<Rightarrow> error option" where
  "last_error [] = None"
| "last_error (r # rs) =
     (case last_error rs of
        Some e \<Rightarrow> Some e
      | None \<Rightarrow> (case r of Returns (Some e) \<Rightarrow> Some e | _ \<Rightarrow> None))"

text \<open>A reference is allocated when it is nil or below the next free address.\<close>

definition allocated :: "World \<Rightarrow> ref option \<Rightarrow> bool" where
  "allocated w r = (case r of None \<Rightarrow> True | Some a \<Rightarrow> a < next_ref w)"

text \<open>
  The text of an error whose \<open>Error()\<close> returns, and the line that the fallback of
  \<open>log\<close> sends to stderr for such an error.
\<close>

definition error_text :: "error \<Rightarrow> string" where
  "error_text e = (case error_Error e of Some s \<Rightarrow> s | None \<Rightarrow> [])"

definition fallback_line :: "error \<Rightarrow> Time \<Rightarrow> string" where
  "fallback_line e now =
     Time_Format_millis now @ '' [ERROR] Failed to write log entry error='' @ error_text e
     @ [CHR 0x0A]"

text \<open>
  A byte that the string encoder of \<open>encoding/json\<close> copies: ASCII, printable, and none
  of the five characters it escapes.
\<close>

definition plain :: "char \<Rightarrow> bool" where
  "plain c = ((of_char c :: nat) < 0x80 \<and> htmlSafe c)"

text \<open>
  The world in which \<open>log\<close> formats its entry, as far as \<open>Format\<close> reads it: the
  new map at the next free address holds the logger's fields overlaid with the fields
  of the call.
\<close>

definition entry_world :: "logger \<Rightarrow> ref option \<Rightarrow> World \<Rightarrow> World" where
  "entry_world l flds w =
     w\<lparr>heap := (heap w)(next_ref w := deref w (logger_fields l) ++\<^sub>f deref w flds)\<rparr>"

text \<open>The text after a number must not go on with a digit.\<close>

definition no_digit_ahead :: "string \<Rightarrow> bool" where
  "no_digit_ahead rest = (rest = [] \<or> \<not> is_digit (hd rest))"

text \<open>
  The map that \<open>JSONFormatter.Format\<close> hands to \<open>json.Marshal\<close> when the call
  \<open>entry.Error.Error()\<close> returns (\<open>JSONFormatter_data_returns\<close>).
\<close>

definition entry_object :: "bool \<Rightarrow> bool \<Rightarrow> World \<Rightarrow> Entry \<Rightarrow> Fields" where
  "entry_object addCaller addStack w entry =
     (let data = fmupd ''message'' (VString (Message entry))
                  (fmupd ''timestamp'' (VString (Time_Format_RFC3339 (Timestamp entry)))
                    (fmupd ''level'' (VString (Level_String (Level entry))) fmempty));
          data = (if 0 < fcard (fmdom (deref w (Fields entry)))
                  then range_put (deref w (Fields entry)) data else data);
          data = (case Error entry of
                    Some err \<Rightarrow> fmupd ''error'' (VString (error_text err)) data
                  | None \<Rightarrow> data);
          data = (if addCaller
                  then (case runtime_Caller w 3 of
                          Some fr \<Rightarrow>
                            fmupd ''function'' (VString (frame_func fr))
                              (fmupd ''caller'' (VString (frame_location fr)) data)
                        | None \<Rightarrow> data)
                  else data);
          data = (if addStack \<and> Error entry \<noteq> None
                  then (let stack = map (\<lambda>fr. frame_location fr @ '' '' @ frame_func fr)
                                        (stack_frames w 10)
                        in if 0 < length stack
                           then fmupd ''stack'' (VSlice (map VString stack)) data
                           else data)
                  else data)
      in data)"

text \<open>
  The keys that \<open>JSONFormatter.Format\<close> writes after it has copied the fields, and so
  over a field of the same name; and all the keys it writes itself.
\<close>

definition late_keys :: "bool \<Rightarrow> bool \<Rightarrow> World \<Rightarrow> Entry \<Rightarrow> string set" where
  "late_keys addCaller addStack w entry =
     (if Error entry \<noteq> None then {''error''} else {})
     \<union> (if addCaller \<and> runtime_Caller w 3 \<noteq> None then {''caller'', ''function''} else {})
     \<union> (if addStack \<and> Error entry \<noteq> None \<and> stack_frames w 10 \<noteq> [] then {''stack''} else {})"

definition formatter_keys :: "string set" where
  "formatter_keys =
     {''level'', ''timestamp'', ''message'', ''error'', ''caller'', ''function'', ''stack''}"

subsection \<open>Example values\<close>

definition example_time :: Time where
  "example_time =
     \<lparr>year = 2024, month = 1, day = 2, hour = 3, minute = 4, second = 5,
      nanosecond = 0, zone_offset = 0\<rparr>"

definition example_world :: World where
  "example_world =
     \<lparr>written = (\<lambda>_. []), write_error = (\<lambda>_. None), short_write = (\<lambda>_. 0),
      heap = (\<lambda>_. fmempty), next_ref = 0, clock = (\<lambda>_. example_time), ticks = 0,
      frames = [], mkdir_error = (\<lambda>_. None), path_dir = (\<lambda>p. p),
      range_order = (\<lambda>_. []), handled = []\<rparr>"

text \<open>A world in which every write to stdout fails and delivers nothing.\<close>

definition broken_stdout_world :: World where
  "broken_stdout_world =
     example_world\<lparr>write_error := (\<lambda>s. if s = Stdout then Some ''file already closed'' else None)\<rparr>"

definition text_logger :: logger where
  "text_logger =
     \<lparr>config = DefaultConfig\<lparr>cfg_Format := ''text'', cfg_AddCaller := False\<rparr>,
      handler = ConsoleHandler Stdout (TextFormatter False False),
      logger_fields = None\<rparr>"

definition warn_logger :: logger where
  "warn_logger =
     \<lparr>config = DefaultConfig\<lparr>cfg_Level := WarnLevel, cfg_AddCaller := False\<rparr>,
      handler = ConsoleHandler Stdout (JSONFormatter False False),
      logger_fields = None\<rparr>"

text \<open>A call site that passes a channel as a field value.\<close>

definition chan_world :: World where
  "chan_world = example_world\<lparr>heap := (\<lambda>_. fmempty)(0 := fmupd ''done'' (VChan 49152) fmempty), next_ref := 1\<rparr>"

definition chan_entry :: Entry where
  "chan_entry = \<lparr>Level = InfoLevel, Timestamp = example_time, Message = ''worker started'',
      Fields = Some 0, Error = None, Context = None\<rparr>"

text \<open>The scenario of the specification: a request log with two fields.\<close>

definition request_world :: World where
  "request_world = example_world\<lparr>heap := (\<lambda>_. fmempty)(0 := fmupd ''status'' (VInt 200) (fmupd ''path'' (VString ''/health'') fmempty)), next_ref := 1\<rparr>"

definition json_logger :: logger where
  "json_logger =
     \<lparr>config = DefaultConfig\<lparr>cfg_AddCaller := False\<rparr>,
      handler = ConsoleHandler Stdout (JSONFormatter False False),
      logger_fields = None\<rparr>"

text \<open>A logger with two base fields, and the fields of a call of \<open>WithFields\<close>.\<close>

definition scoped_world :: World where
  "scoped_world =
     example_world\<lparr>heap := (\<lambda>_. fmempty)
                        (0 := fmupd ''service'' (VString ''api'') (fmupd ''version'' (VInt 1) fmempty),
                         1 := fmupd ''service'' (VString ''web'') (fmupd ''request_id'' (VString ''r-17'') fmempty)),
                    next_ref := 2\<rparr>"

definition base_logger :: logger where
  "base_logger =
     \<lparr>config = DefaultConfig, handler = ConsoleHandler Stdout (JSONFormatter False False),
      logger_fields = Some 0\<rparr>"

text \<open>
  A call site that names a field "message", and the entry of the scenario as the
  formatter receives it.
\<close>

definition shadow_world :: World where
  "shadow_world =
     example_world\<lparr>heap := (\<lambda>_. fmempty)(0 := fmupd ''message'' (VString ''overridden'') fmempty),
                    next_ref := 1\<rparr>"

definition shadow_entry :: Entry where
  "shadow_entry =
     \<lparr>Level = InfoLevel, Timestamp = example_time, Message = ''user logged in'',
      Fields = Some 0, Error = None, Context = None\<rparr>"

definition request_entry :: Entry where
  "request_entry =
     \<lparr>Level = InfoLevel, Timestamp = example_time, Message = ''request completed'',
      Fields = Some 0, Error = None, Context = None\<rparr>"

text \<open>
  A call site that passes a nil pointer of an error type as the error of the call
  (\<open>var e *MyError; log.Error(ctx, "request failed", e, nil)\<close>): the interface value
  that the entry holds is not nil.
\<close>

definition nil_pointer_entry :: Entry where
  "nil_pointer_entry =
     \<lparr>Level = ErrorLevel, Timestamp = example_time, Message = ''request failed'',
      Fields = None, Error = Some NilPointer, Context = None\<rparr>"

text \<open>
  A configuration with a level, a format and an output that the logger does not know,
  and a world in which no directory can be created.
\<close>

definition unknown_config :: Config where
  "unknown_config = DefaultConfig\<lparr>cfg_Level := 17, cfg_Format := ''xml'', cfg_Output := ''syslog''\<rparr>"

definition readonly_world :: World where
  "readonly_world = example_world\<lparr>mkdir_error := (\<lambda>_. Some ''mkdir logs: permission denied'')\<rparr>"

section \<open>Properties\<close>

subsection \<open>What the parts of a call leave unchanged\<close>


lemma range_keys_cong: "range_order w = range_order w' \<Longrightarrow> range_keys w = range_keys w'"
  by (simp add: range_keys_def fun_eq_iff)

lemma Format_cong_world:
  assumes "heap w = heap w'" and "frames w = frames w'" and "range_order w = range_order w'"
  shows "Format f w e = Format f w' e"
proof -
  have d: "deref w = deref w'"
    using assms by (auto simp: deref_def fun_eq_iff split: option.splits)
  have c: "runtime_Caller w = runtime_Caller w'"
    using assms by (auto simp: runtime_Caller_def fun_eq_iff)
  have s: "stack_frames w = stack_frames w'"
    using c by (auto simp: stack_frames_def fun_eq_iff)
  have r: "ranged_items w = ranged_items w'"
    using range_keys_cong [OF assms(3)] by (simp add: ranged_items_def fun_eq_iff)
  show ?thesis
    by (cases f) (simp_all add: JSONFormatter_Format_def JSONFormatter_data_def TextFormatter_Format_def
          Let_def d c s r cong: if_cong option.case_cong outcome.case_cong)
qed

lemma Format_enter [simp]: "Format f (enter_Handle h e w) e' = Format f w e'"
  by (rule Format_cong_world) (simp_all add: enter_Handle_def)

lemma enter_fields [simp]:
  "written (enter_Handle h e w) = written w"
  "write_error (enter_Handle h e w) = write_error w"
  "short_write (enter_Handle h e w) = short_write w"
  "heap (enter_Handle h e w) = heap w"
  "next_ref (enter_Handle h e w) = next_ref w"
  "ticks (enter_Handle h e w) = ticks w"
  "clock (enter_Handle h e w) = clock w"
  "handled (enter_Handle h e w) = handled w @ [(h, e)]"
  by (simp_all add: enter_Handle_def)

lemma Write_fields [simp]:
  "write_error (snd (Write s d w)) = write_error w"
  "short_write (snd (Write s d w)) = short_write w"
  "heap (snd (Write s d w)) = heap w"
  "next_ref (snd (Write s d w)) = next_ref w"
  "ticks (snd (Write s d w)) = ticks w"
  "clock (snd (Write s d w)) = clock w"
  "handled (snd (Write s d w)) = handled w"
  "fst (Write s d w) = map_option Err (write_error w s)"
  by (simp_all add: Write_def split: option.splits)

subsection \<open>Panics and returned errors\<close>

text \<open>
  A formatter panics exactly on an entry whose error is the nil pointer, and then so
  does a console or file handler; on every other entry the handlers return, and an
  error that they return is one whose \<open>Error()\<close> returns.
\<close>

lemma error_Error_simps [simp]:
  "error_Error (Err s) = Some s"
  "error_Error NilPointer = None"
  by (simp_all add: error_Error_def)

lemma error_Error_None: "error_Error e = None \<longleftrightarrow> e = NilPointer"
  by (cases e) simp_all

lemma Format_Panics: "Format f w e = Panics \<longleftrightarrow> Error e = Some NilPointer"
  by (cases f; cases "Error e")
     (auto simp: JSONFormatter_Format_def JSONFormatter_data_def TextFormatter_Format_def Let_def
        error_Error_None split: option.splits outcome.splits)

lemma marshal_error:
  "marshal_Value v = Inl x \<Longrightarrow> x \<noteq> NilPointer"
  "marshal_Values first vs = Inl x \<Longrightarrow> x \<noteq> NilPointer"
  by (induction v and first vs rule: marshal_Value_marshal_Values.induct)
     (auto split: sum.splits)

lemma marshal_members_error: "marshal_members first kvs = Inl x \<Longrightarrow> x \<noteq> NilPointer"
  by (induction first kvs rule: marshal_members.induct)
     (auto split: sum.splits dest: marshal_error(1))

lemma Format_error: "Format f w e = Returns (Inl x) \<Longrightarrow> x \<noteq> NilPointer"
  by (cases f)
     (auto simp: JSONFormatter_Format_def json_Marshal_def TextFormatter_Format_def Let_def
        split: outcome.splits sum.splits option.splits dest: marshal_members_error)

lemma Write_error: "fst (Write s d w) = Some x \<Longrightarrow> x \<noteq> NilPointer"
  by auto

lemma Handle_returns:
  "Error e \<noteq> Some NilPointer \<Longrightarrow> fst (Handle h e w) \<noteq> Panics"
  "Error e \<noteq> Some NilPointer \<Longrightarrow> fst (MultiHandler_loop hs e acc w) \<noteq> Panics"
  by (induction h e w and hs e acc w rule: Handle_MultiHandler_loop.induct)
     (auto simp: Let_def Format_Panics split: outcome.splits sum.splits prod.splits option.splits)

lemma leaf_error:
  "fst (case Format f w0 e of
           Panics \<Rightarrow> (Panics, w1)
         | Returns (Inl err) \<Rightarrow> (Returns (Some err), w1)
         | Returns (Inr data) \<Rightarrow> (case Write s data w1 of (err, w2) \<Rightarrow> (Returns err, w2)))
     = Returns (Some x) \<Longrightarrow> x \<noteq> NilPointer"
proof (cases "Format f w0 e")
  case Panics
  then show "fst (case Format f w0 e of
           Panics \<Rightarrow> (Panics, w1)
         | Returns (Inl err) \<Rightarrow> (Returns (Some err), w1)
         | Returns (Inr data) \<Rightarrow> (case Write s data w1 of (err, w2) \<Rightarrow> (Returns err, w2)))
     = Returns (Some x) \<Longrightarrow> x \<noteq> NilPointer" by simp
next
  case (Returns r)
  assume a: "fst (case Format f w0 e of
           Panics \<Rightarrow> (Panics, w1)
         | Returns (Inl err) \<Rightarrow> (Returns (Some err), w1)
         | Returns (Inr data) \<Rightarrow> (case Write s data w1 of (err, w2) \<Rightarrow> (Returns err, w2)))
     = Returns (Some x)"
  show "x \<noteq> NilPointer"
  proof (cases r)
    case (Inl err)
    then show ?thesis using a Returns Format_error [of f w0 e err] by simp
  next
    case (Inr data)
    then show ?thesis using a Returns Write_error [of s data w1 x] by (simp add: split_def)
  qed
qed

lemma Handle_error:
  "fst (Handle h e w) = Returns (Some x) \<Longrightarrow> x \<noteq> NilPointer"
  "fst (MultiHandler_loop hs e acc w) = Returns (Some x) \<Longrightarrow> acc \<noteq> Some NilPointer \<Longrightarrow> x \<noteq> NilPointer"
proof (induction h e w and hs e acc w arbitrary: x and x rule: Handle_MultiHandler_loop.induct)
  case (1 out formatter entry w)
  then show ?case using leaf_error by (simp add: Let_def)
next
  case (2 writer formatter entry w)
  then show ?case using leaf_error by (simp add: Let_def)
next
  case (3 handlers entry w)
  then show ?case by simp
next
  case (4 entry lastErr w)
  then show ?case by auto
next
  case (5 h hs entry lastErr w)
  obtain r w' where h: "Handle h entry w = (r, w')" by (cases "Handle h entry w")
  show ?case
  proof (cases r)
    case Panics
    then show ?thesis using 5(4) h by simp
  next
    case (Returns ro)
    show ?thesis
    proof (cases ro)
      case None
      then show ?thesis using 5(2) [of r w' ro x] 5(4,5) h Returns
        by simp
    next
      case (Some err)
      have "err \<noteq> NilPointer" using 5(1) [of err] h Returns Some by simp
      then show ?thesis using 5(3) [of r w' ro err x] 5(4) h Returns Some
        by simp
    qed
  qed
qed

subsection \<open>The multi handler\<close>


lemma leaf_handled:
  "handled (snd (case Format f w0 e of
           Panics \<Rightarrow> (Panics, w1)
         | Returns (Inl err) \<Rightarrow> (Returns (Some err), w1)
         | Returns (Inr data) \<Rightarrow> (case Write s data w1 of (err, w2) \<Rightarrow> (Returns err, w2))))
     = handled w1"
  by (cases "Format f w0 e") (simp_all add: split_def split: sum.splits)

lemma Handle_handled:
  "Error e \<noteq> Some NilPointer \<Longrightarrow> handled (snd (Handle h e w)) = handled w @ calls_of h e"
  "Error e \<noteq> Some NilPointer \<Longrightarrow>
     handled (snd (MultiHandler_loop hs e acc w)) = handled w @ concat (map (\<lambda>h. calls_of h e) hs)"
proof (induction h e w and hs e acc w rule: Handle_MultiHandler_loop.induct)
  case (1 out formatter entry w)
  then show ?case by (simp add: Let_def leaf_handled)
next
  case (2 writer formatter entry w)
  then show ?case by (simp add: Let_def leaf_handled)
next
  case (3 handlers entry w)
  then show ?case by simp
next
  case (4 entry lastErr w)
  then show ?case by simp
next
  case (5 h hs entry lastErr w)
  obtain r w' where h: "Handle h entry w = (r, w')" by (cases "Handle h entry w")
  have w': "handled w' = handled w @ calls_of h entry"
    using 5(1) [OF 5(4)] h by simp
  show ?case
  proof (cases r)
    case Panics
    then show ?thesis using Handle_returns(1) [OF 5(4), of h w] h by simp
  next
    case (Returns ro)
    show ?thesis
    proof (cases ro)
      case None
      then show ?thesis using 5(2) [of r w' ro] 5(4) h Returns w'
        by simp
    next
      case (Some err)
      then show ?thesis using 5(3) [of r w' ro err] 5(4) h Returns w'
        by simp
    qed
  qed
qed

lemma last_error_Cons:
  "last_error (Returns r # rs) = (case last_error rs of None \<Rightarrow> r | Some x \<Rightarrow> Some x)"
  by (cases r) (simp_all split: option.splits)

lemma loop_results:
  "Error e \<noteq> Some NilPointer \<Longrightarrow>
   MultiHandler_loop hs e acc w =
     (Returns (case last_error (fst (member_results hs e w)) of None \<Rightarrow> acc | Some x \<Rightarrow> Some x),
      snd (member_results hs e w))"
proof (induction hs arbitrary: acc w)
  case Nil
  then show ?case by simp
next
  case (Cons h hs)
  obtain r w1 where h: "Handle h e w = (Returns r, w1)"
    using Handle_returns(1) [OF Cons.prems, of h w]
    by (cases "Handle h e w"; cases "fst (Handle h e w)") auto
  have m: "member_results (h # hs) e w =
             (Returns r # fst (member_results hs e w1), snd (member_results hs e w1))"
    using h by (simp add: split_def Let_def)
  show ?case
    unfolding m using Cons.IH [OF Cons.prems] h
    by (cases r) (simp_all add: last_error_Cons split: option.splits del: last_error.simps)
qed

lemma member_results_length: "length (fst (member_results hs e w)) = length hs"
  by (induction hs arbitrary: w) (simp_all add: split_def Let_def)

lemma member_results_returned:
  "Error e \<noteq> Some NilPointer \<Longrightarrow> Panics \<notin> set (fst (member_results hs e w))"
proof (induction hs arbitrary: w)
  case Nil
  then show ?case by simp
next
  case (Cons h hs)
  have "Panics \<noteq> fst (Handle h e w)"
    using Handle_returns(1) [OF Cons.prems, of h w] by auto
  then show ?case
    using Cons by (simp add: split_def Let_def)
qed

lemma member_results_handled:
  "Error e \<noteq> Some NilPointer \<Longrightarrow>
     handled (snd (member_results hs e w)) = handled w @ concat (map (\<lambda>h. calls_of h e) hs)"
  using Handle_handled(2) [of e hs None w] by (simp add: loop_results)

text \<open>
  A member that panics ends the loop: the members after it are not called.
\<close>

lemma member_panic:
  assumes "Error entry = Some NilPointer"
  shows "Handle (MultiHandler (ConsoleHandler out f # hs)) entry w =
           (Panics, enter_Handle (ConsoleHandler out f) entry
                      (enter_Handle (MultiHandler (ConsoleHandler out f # hs)) entry w))"
proof -
  have "Format f w entry = Panics"
    using assms by (simp add: Format_Panics)
  then show ?thesis
    by (simp add: Let_def del: Format.simps)
qed

subsection \<open>The maps on the heap\<close>


lemma deref_cong_heap: "heap w' = heap w \<Longrightarrow> deref w' r = deref w r"
  by (cases r) (simp_all add: deref_def)

lemma assign_key_frame: "assign_key src dst k w = w\<lparr>heap := heap (assign_key src dst k w)\<rparr>"
  by (simp add: assign_key_def map_assign_def split: option.splits)

lemma fold_assign_frame:
  "fold (assign_key src dst) ks w = w\<lparr>heap := heap (fold (assign_key src dst) ks w)\<rparr>"
proof (induction ks arbitrary: w)
  case Nil
  then show ?case by simp
next
  case (Cons k ks)
  have "fold (assign_key src dst) (k # ks) w
        = (assign_key src dst k w)\<lparr>heap := heap (fold (assign_key src dst) (k # ks) w)\<rparr>"
    using Cons.IH [of "assign_key src dst k w"] by simp
  also have "\<dots> = (w\<lparr>heap := heap (assign_key src dst k w)\<rparr>)
                     \<lparr>heap := heap (fold (assign_key src dst) (k # ks) w)\<rparr>"
    using assign_key_frame [of src dst k w] by simp
  finally show ?case by simp
qed

lemma assign_key_heap:
  assumes "src \<noteq> Some dst"
  shows "heap (assign_key src dst k w) =
           (heap w)(dst := heap w dst ++\<^sub>f fmrestrict_set {k} (deref w src))"
proof (cases "fmlookup (deref w src) k")
  case None
  then have "fmrestrict_set {k} (deref w src) = fmempty"
    by (intro fmap_ext) (auto simp: fmlookup_dom_iff)
  with None show ?thesis by (simp add: assign_key_def)
next
  case (Some v)
  then have "heap w dst ++\<^sub>f fmrestrict_set {k} (deref w src) = fmupd k v (heap w dst)"
    by (intro fmap_ext) (auto simp: fmlookup_dom_iff)
  with Some show ?thesis by (simp add: assign_key_def map_assign_def)
qed

lemma assign_key_deref:
  assumes "src \<noteq> Some dst"
  shows "deref (assign_key src dst k w) src = deref w src"
  using assms by (cases src) (simp_all add: deref_def assign_key_heap)

lemma fold_assign_heap:
  assumes "src \<noteq> Some dst"
  shows "heap (fold (assign_key src dst) ks w) =
           (heap w)(dst := heap w dst ++\<^sub>f fmrestrict_set (set ks) (deref w src))"
proof (induction ks arbitrary: w)
  case Nil
  then show ?case by simp
next
  case (Cons k ks)
  have "(heap w dst ++\<^sub>f fmrestrict_set {k} (deref w src)) ++\<^sub>f fmrestrict_set (set ks) (deref w src)
        = heap w dst ++\<^sub>f fmrestrict_set (insert k (set ks)) (deref w src)"
    by (intro fmap_ext) (auto simp: fmlookup_dom_iff)
  then show ?case
    using assms by (auto simp add: Cons.IH assign_key_heap assign_key_deref fun_eq_iff)
qed

lemma range_assign_heap:
  assumes "src \<noteq> Some dst"
  shows "heap (range_assign src dst w) = (heap w)(dst := heap w dst ++\<^sub>f deref w src)"
proof -
  have "fmrestrict_set (fset (fmdom (deref w src))) (deref w src) = deref w src"
    by (intro fmap_ext) (auto simp: fmdom_notI)
  then show ?thesis
    unfolding range_assign_def fold_assign_heap [OF assms] by simp
qed

lemma range_assign_frame: "range_assign src dst w = w\<lparr>heap := heap (range_assign src dst w)\<rparr>"
  unfolding range_assign_def by (rule fold_assign_frame)

lemma range_assign_fields [simp]:
  "written (range_assign src dst w) = written w"
  "write_error (range_assign src dst w) = write_error w"
  "short_write (range_assign src dst w) = short_write w"
  "next_ref (range_assign src dst w) = next_ref w"
  "clock (range_assign src dst w) = clock w"
  "ticks (range_assign src dst w) = ticks w"
  "frames (range_assign src dst w) = frames w"
  "handled (range_assign src dst w) = handled w"
  "range_order (range_assign src dst w) = range_order w"
  by (subst range_assign_frame, simp)+

lemma merge_fields_heap:
  assumes "allocated w base" and "allocated w extra"
  shows "fst (merge_fields base extra w) = next_ref w"
    and "heap (snd (merge_fields base extra w)) =
           (heap w)(next_ref w := deref w base ++\<^sub>f deref w extra)"
proof -
  have b: "base \<noteq> Some (next_ref w)" and e: "extra \<noteq> Some (next_ref w)"
    using assms by (auto simp: allocated_def)
  have d: "deref w' r = deref w r"
    if "r \<noteq> Some (next_ref w)" and "heap w' = (heap w)(next_ref w := m)" for r m w'
    using that by (cases r) (simp_all add: deref_def)
  show "fst (merge_fields base extra w) = next_ref w"
    by (simp add: merge_fields_def make_Fields_def)
  show "heap (snd (merge_fields base extra w)) =
           (heap w)(next_ref w := deref w base ++\<^sub>f deref w extra)"
    using b e by (simp add: merge_fields_def make_Fields_def range_assign_heap d)
qed

lemma merge_fields_fields [simp]:
  "written (snd (merge_fields base extra w)) = written w"
  "write_error (snd (merge_fields base extra w)) = write_error w"
  "short_write (snd (merge_fields base extra w)) = short_write w"
  "next_ref (snd (merge_fields base extra w)) = Suc (next_ref w)"
  "clock (snd (merge_fields base extra w)) = clock w"
  "ticks (snd (merge_fields base extra w)) = ticks w"
  "frames (snd (merge_fields base extra w)) = frames w"
  "handled (snd (merge_fields base extra w)) = handled w"
  "range_order (snd (merge_fields base extra w)) = range_order w"
  by (simp_all add: merge_fields_def make_Fields_def)

subsection \<open>The write path\<close>


lemma time_Now_fields [simp]:
  "fst (time_Now w) = clock w (ticks w)"
  "written (snd (time_Now w)) = written w"
  "write_error (snd (time_Now w)) = write_error w"
  "short_write (snd (time_Now w)) = short_write w"
  "heap (snd (time_Now w)) = heap w"
  "next_ref (snd (time_Now w)) = next_ref w"
  "clock (snd (time_Now w)) = clock w"
  "ticks (snd (time_Now w)) = Suc (ticks w)"
  "frames (snd (time_Now w)) = frames w"
  "handled (snd (time_Now w)) = handled w"
  "range_order (snd (time_Now w)) = range_order w"
  by (simp_all add: time_Now_def)

lemma log_entry_fields [simp]:
  "written (snd (log_entry l ctx level msg err flds w)) = written w"
  "write_error (snd (log_entry l ctx level msg err flds w)) = write_error w"
  "short_write (snd (log_entry l ctx level msg err flds w)) = short_write w"
  "next_ref (snd (log_entry l ctx level msg err flds w)) = Suc (next_ref w)"
  "ticks (snd (log_entry l ctx level msg err flds w)) = Suc (ticks w)"
  "handled (snd (log_entry l ctx level msg err flds w)) = handled w"
  "range_order (snd (log_entry l ctx level msg err flds w)) = range_order w"
  by (simp_all add: log_entry_def split_def Let_def)

lemma log_entry_value:
  "fst (log_entry l ctx level msg err flds w) =
     \<lparr>Level = level, Timestamp = clock w (ticks w), Message = msg,
      Fields = Some (fst (merge_fields (logger_fields l) flds w)), Error = err, Context = ctx\<rparr>"
  by (simp add: log_entry_def split_def Let_def)

lemma fallback_format:
  "e \<noteq> NilPointer \<Longrightarrow>
     TextFormatter_Format False False w (fallback_entry e now) = Returns (Inr (fallback_line e now))"
  by (cases e)
     (simp_all add: TextFormatter_Format_def fallback_entry_def fallback_line_def error_text_def
        deref_def Level_String_def Level_defs strings_ToUpper_def Let_def)

lemma fallback_Handle:
  "e \<noteq> NilPointer \<Longrightarrow>
   Handle (ConsoleHandler out (TextFormatter False False)) (fallback_entry e now) w =
     (Returns (map_option Err (write_error w out)),
      snd (Write out (fallback_line e now)
             (enter_Handle (ConsoleHandler out (TextFormatter False False)) (fallback_entry e now) w)))"
  by (simp add: fallback_format Let_def split_def)

text \<open>
  \<open>log\<close> never ends the process, and it returns to its caller unless the error of the
  call is the nil pointer.
\<close>

lemma log_never_exits: "fst (logger_log l ctx level msg err flds w) \<noteq> Exited c"
  by (simp add: logger_log_def split_def Let_def NewConsoleHandler_def
        split: outcome.splits option.splits del: Handle.simps)

lemma log_returns:
  assumes "err \<noteq> Some NilPointer"
  shows "fst (logger_log l ctx level msg err flds w) = Returned"
proof (cases "level < cfg_Level (config l)")
  case True
  then show ?thesis by (simp add: logger_log_def)
next
  case False
  obtain entry w4 where le: "log_entry l ctx level msg err flds w = (entry, w4)"
    by (cases "log_entry l ctx level msg err flds w")
  have e: "Error entry \<noteq> Some NilPointer"
    using assms le log_entry_value [of l ctx level msg err flds w] by auto
  obtain r w5 where h: "Handle (handler l) entry w4 = (Returns r, w5)"
    using Handle_returns(1) [OF e, of "handler l" w4]
    by (cases "Handle (handler l) entry w4"; cases "fst (Handle (handler l) entry w4)") auto
  show ?thesis
  proof (cases r)
    case None
    then show ?thesis
      using False le h by (simp add: logger_log_def del: Handle.simps)
  next
    case (Some x)
    then have "x \<noteq> NilPointer"
      using Handle_error(1) [of "handler l" entry w4 x] h by simp
    then show ?thesis
      using False le h Some
      by (simp add: logger_log_def NewConsoleHandler_def split_def fallback_Handle del: Handle.simps)
  qed
qed

text \<open>The calls of \<open>Handle\<close> that a call of \<open>log\<close> at or above the threshold makes.\<close>

lemma log_handled:
  assumes "err \<noteq> Some NilPointer"
      and "\<not> level < cfg_Level (config l)"
      and "log_entry l ctx level msg err flds w = (entry, w4)"
      and "Handle (handler l) entry w4 = (r, w5)"
  shows "handled (snd (logger_log l ctx level msg err flds w)) =
           handled w @ calls_of (handler l) entry
           @ (case r of
                Returns (Some e) \<Rightarrow>
                  [(ConsoleHandler Stderr (TextFormatter False False),
                    fallback_entry e (clock w5 (ticks w5)))]
              | _ \<Rightarrow> [])"
proof -
  have e: "Error entry \<noteq> Some NilPointer"
    using assms(1,3) log_entry_value [of l ctx level msg err flds w] by auto
  have w4: "handled w4 = handled w"
    using log_entry_fields(6) [of l ctx level msg err flds w] assms(3) by simp
  have w5: "handled w5 = handled w @ calls_of (handler l) entry"
    using Handle_handled(1) [OF e, of "handler l" w4] assms(4) w4 by simp
  have r: "r \<noteq> Panics"
    using Handle_returns(1) [OF e, of "handler l" w4] assms(4) by simp
  show ?thesis
  proof (cases r)
    case Panics
    then show ?thesis using r by simp
  next
    case (Returns ro)
    show ?thesis
    proof (cases ro)
      case None
      then show ?thesis
        using assms(2,3,4) Returns w5 by (simp add: logger_log_def del: Handle.simps)
    next
      case (Some x)
      then have "x \<noteq> NilPointer"
        using Handle_error(1) [of "handler l" entry w4 x] assms(4) Returns by simp
      then show ?thesis
        using assms(2,3,4) Returns Some w5
        by (simp add: logger_log_def NewConsoleHandler_def split_def fallback_Handle
              del: Handle.simps)
    qed
  qed
qed

text \<open>What the fallback of \<open>log\<close> adds to stderr.\<close>

lemma log_written_fallback:
  assumes "\<not> level < cfg_Level (config l)"
      and "log_entry l ctx level msg err flds w = (entry, w4)"
      and "Handle (handler l) entry w4 = (Returns (Some e), w5)"
  shows "written (snd (logger_log l ctx level msg err flds w)) =
             (written w5)(Stderr := written w5 Stderr @
                (case write_error w5 Stderr of
                   None \<Rightarrow> fallback_line e (clock w5 (ticks w5))
                 | Some _ \<Rightarrow> take (short_write w5 Stderr) (fallback_line e (clock w5 (ticks w5)))))"
proof -
  have e: "e \<noteq> NilPointer"
    using Handle_error(1) [of "handler l" entry w4 e] assms(3) by simp
  show ?thesis
    using assms e
    by (simp add: logger_log_def NewConsoleHandler_def split_def Let_def fallback_Handle Write_def
          split: option.splits del: Handle.simps)
qed

subsection \<open>The items of a map and the string encoder\<close>

lemma sorted_items_map:
  "sorted_items m = map (\<lambda>k. (k, the (fmlookup m k))) (sorted_list_of_fset (fmdom m))"
proof -
  have "concat (map (\<lambda>k. case fmlookup m k of Some v \<Rightarrow> [(k, v)] | None \<Rightarrow> []) ks)
        = map (\<lambda>k. (k, the (fmlookup m k))) ks" if "set ks \<subseteq> fset (fmdom m)" for ks
    using that by (induction ks) (auto simp: fmlookup_dom_iff)
  then show ?thesis by (simp add: sorted_items_def)
qed

lemma sorted_items_keys: "map fst (sorted_items m) = sorted_list_of_fset (fmdom m)"
  by (simp add: sorted_items_map comp_def)

lemma sorted_items_sorted: "sorted (map fst (sorted_items m))"
  by (simp add: sorted_items_keys sorted_list_of_fset.rep_eq)

lemma sorted_items_distinct: "distinct (map fst (sorted_items m))"
  by (simp add: sorted_items_keys sorted_list_of_fset.rep_eq)

lemma set_sorted_items: "set (sorted_items m) = {(k, v). fmlookup m k = Some v}"
  by (auto simp: sorted_items_map fmlookup_dom_iff)

lemma map_of_sorted_items: "map_of (sorted_items m) = fmlookup m"
proof
  fix k
  show "map_of (sorted_items m) k = fmlookup m k"
  proof (cases "fmlookup m k")
    case None
    then have "k \<notin> fst ` set (sorted_items m)"
      by (auto simp: set_sorted_items)
    then show ?thesis using None by (simp add: map_of_eq_None_iff)
  next
    case (Some v)
    then have "(k, v) \<in> set (sorted_items m)"
      by (simp add: set_sorted_items)
    then show ?thesis using Some sorted_items_distinct [of m] by simp
  qed
qed

lemma items_unique:
  assumes "sorted (map fst xs)" "distinct (map fst xs)"
      and "sorted (map fst ys)" "distinct (map fst ys)"
      and "set xs = set ys"
  shows "xs = (ys :: (string \<times> 'a) list)"
proof (rule map_sorted_distinct_set_unique [where f = fst])
  show "inj_on fst (set xs \<union> set ys)"
    using assms(2,5) by (simp add: distinct_map)
qed (use assms in auto)

lemma map_fst_insort_key: "map fst (insort_key fst x xs) = insort (fst x) (map fst xs)"
  by (induction xs) auto

lemma sorted_items_fmempty [simp]: "sorted_items fmempty = []"
  by (simp add: sorted_items_def)

lemma sorted_items_fmupd:
  "sorted_items (fmupd k v m) =
     insort_key fst (k, v) (filter (\<lambda>kv. fst kv \<noteq> k) (sorted_items m))"
proof (rule items_unique)
  show "sorted (map fst (sorted_items (fmupd k v m)))" by (rule sorted_items_sorted)
  show "distinct (map fst (sorted_items (fmupd k v m)))" by (rule sorted_items_distinct)
  have s: "sorted (map fst (filter (\<lambda>kv. fst kv \<noteq> k) (sorted_items m)))"
    by (rule sorted_filter) (rule sorted_items_sorted)
  show "sorted (map fst (insort_key fst (k, v) (filter (\<lambda>kv. fst kv \<noteq> k) (sorted_items m))))"
    using s by (simp add: map_fst_insort_key sorted_insort)
  have d: "distinct (map fst (filter (\<lambda>kv. fst kv \<noteq> k) (sorted_items m)))"
    by (rule distinct_map_filter) (rule sorted_items_distinct)
  show "distinct (map fst (insort_key fst (k, v) (filter (\<lambda>kv. fst kv \<noteq> k) (sorted_items m))))"
    using d by (auto simp: map_fst_insort_key distinct_insort)
  show "set (sorted_items (fmupd k v m)) =
        set (insort_key fst (k, v) (filter (\<lambda>kv. fst kv \<noteq> k) (sorted_items m)))"
    by (auto simp: set_sorted_items set_insort_key split: if_splits)
qed

lemma range_put_fold: "fold (\<lambda>(k, v) d. fmupd k v d) kvs data = data ++\<^sub>f fmap_of_list kvs"
  if "distinct (map fst kvs)"
  using that
proof (induction kvs arbitrary: data)
  case Nil
  then show ?case by simp
next
  case (Cons kv kvs)
  obtain k v where kv: "kv = (k, v)" by (cases kv)
  have none: "map_of kvs k = None"
    using Cons.prems kv by (simp add: map_of_eq_None_iff)
  have "fmlookup (fmupd k v data ++\<^sub>f fmap_of_list kvs) x
        = fmlookup (data ++\<^sub>f fmap_of_list ((k, v) # kvs)) x" for x
    using none by (cases "x = k") (simp_all add: fmlookup_of_list map_of_eq_None_iff fset_of_list.rep_eq)
  then have "fmupd k v data ++\<^sub>f fmap_of_list kvs = data ++\<^sub>f fmap_of_list ((k, v) # kvs)"
    by (rule fmap_ext)
  then show ?case using Cons kv by simp
qed

lemma range_put_eq: "range_put src data = data ++\<^sub>f src"
proof -
  have "fmap_of_list (sorted_items src) = src"
    by (intro fmap_ext) (simp add: fmlookup_of_list map_of_sorted_items)
  then show ?thesis
    by (simp add: range_put_def range_put_fold sorted_items_distinct)
qed

lemma json_escape_plain: "list_all plain s \<Longrightarrow> json_escape s = s"
  by (induction s) (auto simp: json_escape.simps(2) escape_byte_def plain_def)

subsection \<open>What a call of \<open>log\<close> formats and writes\<close>

lemma log_entry_clock [simp]:
  "clock (snd (log_entry l ctx level msg err flds w)) = clock w"
  "frames (snd (log_entry l ctx level msg err flds w)) = frames w"
  by (simp_all add: log_entry_def split_def Let_def)

lemma log_entry_Format:
  assumes "allocated w (logger_fields l)" and "allocated w flds"
  shows "Format f (snd (log_entry l ctx level msg err flds w)) (fst (log_entry l ctx level msg err flds w))
         = Format f (entry_world l flds w)
             \<lparr>Level = level, Timestamp = clock w (ticks w), Message = msg,
              Fields = Some (next_ref w), Error = err, Context = ctx\<rparr>"
proof -
  have h: "heap (snd (log_entry l ctx level msg err flds w)) = heap (entry_world l flds w)"
    using assms by (simp add: log_entry_def split_def Let_def merge_fields_heap entry_world_def)
  have f: "frames (snd (log_entry l ctx level msg err flds w)) = frames (entry_world l flds w)"
    by (simp add: log_entry_def split_def Let_def entry_world_def)
  have v: "fst (log_entry l ctx level msg err flds w) =
             \<lparr>Level = level, Timestamp = clock w (ticks w), Message = msg,
              Fields = Some (next_ref w), Error = err, Context = ctx\<rparr>"
    using assms by (simp add: log_entry_value merge_fields_heap(1))
  have r: "range_order (snd (log_entry l ctx level msg err flds w)) = range_order (entry_world l flds w)"
    by (simp add: entry_world_def)
  show ?thesis
    unfolding v by (rule Format_cong_world [OF h f r])
qed

lemma log_written_console:
  assumes "\<not> level < cfg_Level (config l)"
      and "handler l = ConsoleHandler out f"
      and "allocated w (logger_fields l)" and "allocated w flds"
      and "Format f (entry_world l flds w)
             \<lparr>Level = level, Timestamp = clock w (ticks w), Message = msg,
              Fields = Some (next_ref w), Error = err, Context = ctx\<rparr> = Returns (Inr data)"
      and "write_error w out = None"
  shows "written (snd (logger_log l ctx level msg err flds w)) = (written w)(out := written w out @ data)"
proof -
  have "Format f (snd (log_entry l ctx level msg err flds w)) (fst (log_entry l ctx level msg err flds w))
        = Returns (Inr data)"
    using assms(3,4,5) by (simp add: log_entry_Format)
  then show ?thesis
    using assms(1,2,6) by (simp add: logger_log_def split_def Let_def Write_def)
qed

lemma digit_char_simps:
  "digit_char 0 = CHR ''0''" "digit_char (Suc 0) = CHR ''1''" "digit_char 2 = CHR ''2''"
  "digit_char 3 = CHR ''3''" "digit_char 4 = CHR ''4''" "digit_char 5 = CHR ''5''"
  "digit_char 6 = CHR ''6''" "digit_char 7 = CHR ''7''" "digit_char 8 = CHR ''8''"
  "digit_char 9 = CHR ''9''"
  by (simp_all add: digit_char_def char_of_eq_iff)

lemma decimal_small: "n < 10 \<Longrightarrow> decimal n = [digit_char n]"
  by (subst decimal.simps) simp

lemma decimal_large: "10 \<le> n \<Longrightarrow> decimal n = decimal (n div 10) @ [digit_char (n mod 10)]"
  by (subst decimal.simps) simp

lemma format_zone_utc: "format_zone 0 = ''Z''"
  by (simp add: format_zone_def)

lemma example_date_time: "format_date_time example_time = ''2024-01-02T03:04:05''"
  by (simp add: format_date_time_def example_time_def
        appendInt_def decimal_small decimal_large digit_char_simps)

lemma example_rfc3339: "Time_Format_RFC3339 example_time = ''2024-01-02T03:04:05Z''"
  by (simp add: Time_Format_RFC3339_def example_date_time)
     (simp add: example_time_def format_zone_utc)

lemma json_quote_plain: "list_all plain s \<Longrightarrow> json_quote s = CHR 0x22 # s @ [CHR 0x22]"
  by (simp add: json_quote_def json_escape_plain)

subsection \<open>Evaluating the examples\<close>

lemma chan_data:
  "JSONFormatter_data False False chan_world chan_entry
   = Returns (fmupd ''done'' (VChan 49152)
       (fmupd ''message'' (VString ''worker started'')
          (fmupd ''timestamp'' (VString ''2024-01-02T03:04:05Z'')
             (fmupd ''level'' (VString ''INFO'') fmempty))))"
  by (simp add: JSONFormatter_data_def chan_world_def chan_entry_def
        example_world_def deref_def range_put_eq example_rfc3339 Level_String_def Level_defs
        Let_def fcard_finsert_if)

lemma chan_items:
  "sorted_items (fmupd ''done'' (VChan 49152)
       (fmupd ''message'' (VString ''worker started'')
          (fmupd ''timestamp'' (VString ''2024-01-02T03:04:05Z'')
             (fmupd ''level'' (VString ''INFO'') fmempty))))
   = [(''done'', VChan 49152), (''level'', VString ''INFO''),
      (''message'', VString ''worker started''),
      (''timestamp'', VString ''2024-01-02T03:04:05Z'')]"
  by (simp add: sorted_items_fmupd)

lemma chan_format:
  "Format (JSONFormatter False False) chan_world chan_entry
   = Returns (Inl (Err ''json: unsupported type: chan int''))"
  by (simp add: JSONFormatter_Format_def chan_data json_Marshal_def chan_items)

lemma TextFormatter_returns:
  "Error entry \<noteq> Some NilPointer \<Longrightarrow>
     \<exists>data. TextFormatter_Format addCaller addStack w entry = Returns (Inr data)"
  by (cases "Error entry")
     (auto simp: TextFormatter_Format_def Let_def error_Error_None split: option.splits)

lemma Handle_text_error:
  assumes "Error entry \<noteq> Some NilPointer"
  shows "fst (Handle (ConsoleHandler out (TextFormatter addCaller addStack)) entry w)
           = Returns (map_option Err (write_error w out))"
    and "fst (Handle (FileHandler writer (TextFormatter addCaller addStack)) entry w)
           = Returns (map_option Err (write_error w (Rotating writer)))"
proof -
  obtain data where d: "Format (TextFormatter addCaller addStack) w entry = Returns (Inr data)"
    using TextFormatter_returns [OF assms, of addCaller addStack w] by auto
  show "fst (Handle (ConsoleHandler out (TextFormatter addCaller addStack)) entry w)
           = Returns (map_option Err (write_error w out))"
    using d by (simp add: Let_def split_def del: Format.simps)
  show "fst (Handle (FileHandler writer (TextFormatter addCaller addStack)) entry w)
           = Returns (map_option Err (write_error w (Rotating writer)))"
    using d by (simp add: Let_def split_def del: Format.simps)
qed

lemma broken_Handle:
  "fst (Handle (handler text_logger)
               (fst (log_entry text_logger None InfoLevel ''started'' None None broken_stdout_world))
               (snd (log_entry text_logger None InfoLevel ''started'' None None broken_stdout_world)))
         = Returns (Some (Err ''file already closed''))"
  by (simp add: text_logger_def Handle_text_error log_entry_value broken_stdout_world_def
        example_world_def del: Handle.simps)

lemma appendInt_zero_3: "appendInt 0 3 = ''000''"
  by (simp add: appendInt_def decimal_small digit_char_simps numeral_3_eq_3)

lemma example_millis: "Time_Format_millis example_time = ''2024-01-02T03:04:05.000Z''"
proof -
  have "nanosecond example_time div 1000000 mod 1000 = 0" "zone_offset example_time = 0"
    by (simp_all add: example_time_def)
  then show ?thesis
    by (simp add: Time_Format_millis_def example_date_time format_zone_utc appendInt_zero_3)
qed

lemma broken_line:
  "fallback_line (Err ''file already closed'') example_time =
   ''2024-01-02T03:04:05.000Z [ERROR] Failed to write log entry error=file already closed'' @ [CHR 0x0A]"
  by (simp add: fallback_line_def error_text_def example_millis)

lemma disk_full_line:
  "fallback_line (Err ''disk full'') example_time =
   ''2024-01-02T03:04:05.000Z [ERROR] Failed to write log entry error=disk full'' @ [CHR 0x0A]"
  by (simp add: fallback_line_def error_text_def example_millis)

text \<open>A call of \<open>log\<close> at level Fatal whose handler cannot write to stdout.\<close>

lemma fatal_example:
  "written (snd (logger_log text_logger None FatalLevel ''cannot bind port''
                              (Some (Err ''address in use'')) None broken_stdout_world)) Stderr
   = ''2024-01-02T03:04:05.000Z [ERROR] Failed to write log entry error=file already closed'' @ [CHR 0x0A]"
proof -
  let ?le = "log_entry text_logger None FatalLevel ''cannot bind port''
               (Some (Err ''address in use'')) None broken_stdout_world"
  let ?h = "Handle (handler text_logger) (fst ?le) (snd ?le)"
  have le: "?le = (fst ?le, snd ?le)"
    by simp
  have r: "fst ?h = Returns (Some (Err ''file already closed''))"
    by (simp add: text_logger_def Handle_text_error log_entry_value broken_stdout_world_def
          example_world_def del: Handle.simps)
  have h: "?h = (Returns (Some (Err ''file already closed'')), snd ?h)"
    using r by (simp add: prod_eq_iff del: Handle.simps)
  have lvl: "\<not> FatalLevel < cfg_Level (config text_logger)"
    by (simp add: text_logger_def DefaultConfig_def Level_defs)
  have w5: "written (snd ?h) Stderr = []" "write_error (snd ?h) Stderr = None"
    "clock (snd ?h) (ticks (snd ?h)) = example_time"
    by (simp_all add: text_logger_def TextFormatter_Format_def Let_def Write_def log_entry_value
          broken_stdout_world_def example_world_def fun_eq_iff split_def)
  show ?thesis
    unfolding log_written_fallback [OF lvl le h]
    by (simp add: w5 broken_line del: Handle.simps)
qed

subsection \<open>The fields of an entry\<close>

lemma log_entry_deref:
  assumes "allocated w (logger_fields l)" and "allocated w flds"
  shows "deref (snd (log_entry l ctx level msg err flds w))
               (Fields (fst (log_entry l ctx level msg err flds w)))
         = deref w (logger_fields l) ++\<^sub>f deref w flds"
  using assms by (simp add: log_entry_def split_def Let_def merge_fields_heap deref_def)

lemma deref_allocated:
  "allocated w r \<Longrightarrow> heap w' = (heap w)(next_ref w := m) \<Longrightarrow> deref w' r = deref w r"
  by (cases r) (simp_all add: deref_def allocated_def)

subsection \<open>The scenario of the specification\<close>

lemma request_data:
  "JSONFormatter_data False False (entry_world json_logger (Some 0) request_world)
        \<lparr>Level = InfoLevel, Timestamp = clock request_world (ticks request_world), Message = ''request completed'',
              Fields = Some (next_ref request_world), Error = None, Context = None\<rparr>
   = Returns (fmupd ''status'' (VInt 200) (fmupd ''path'' (VString ''/health'')
       (fmupd ''message'' (VString ''request completed'')
                  (fmupd ''timestamp'' (VString ''2024-01-02T03:04:05Z'')
                    (fmupd ''level'' (VString ''INFO'') fmempty)))))"
  by (simp add: JSONFormatter_data_def entry_world_def request_world_def json_logger_def
        example_world_def deref_def range_put_eq example_rfc3339 Level_String_def Level_defs
        Let_def fcard_finsert_if)

lemma request_items:
  "sorted_items (fmupd ''status'' (VInt 200) (fmupd ''path'' (VString ''/health'')
       (fmupd ''message'' (VString ''request completed'')
                  (fmupd ''timestamp'' (VString ''2024-01-02T03:04:05Z'')
                    (fmupd ''level'' (VString ''INFO'') fmempty)))))
   = [(''level'', VString ''INFO''), (''message'', VString ''request completed''),
      (''path'', VString ''/health''), (''status'', VInt 200),
      (''timestamp'', VString ''2024-01-02T03:04:05Z'')]"
  by (simp add: sorted_items_fmupd)

lemma request_members:
  \<open>marshal_members True [(''level'', VString ''INFO''), (''message'', VString ''request completed''),
      (''path'', VString ''/health''), (''status'', VInt 200),
      (''timestamp'', VString ''2024-01-02T03:04:05Z'')]
   = Inr ''"level":"INFO","message":"request completed","path":"/health","status":200,"timestamp":"2024-01-02T03:04:05Z"''\<close>
  apply (simp add: comma_def)
  apply (simp add: json_quote_plain plain_def htmlSafe_def)
  apply (simp add: strconv_Itoa_def decimal_small decimal_large digit_char_simps)
  done

lemma request_format:
  \<open>Format (JSONFormatter False False) (entry_world json_logger (Some 0) request_world)
        \<lparr>Level = InfoLevel, Timestamp = clock request_world (ticks request_world), Message = ''request completed'',
              Fields = Some (next_ref request_world), Error = None, Context = None\<rparr>
   = Returns (Inr ''{"level":"INFO","message":"request completed","path":"/health","status":200,"timestamp":"2024-01-02T03:04:05Z"}'')\<close>
  by (simp add: JSONFormatter_Format_def request_data json_Marshal_def request_items request_members
        del: marshal_members.simps)

lemma request_written:
  \<open>written (snd (logger_log json_logger None InfoLevel ''request completed'' None (Some 0) request_world))
        = (written request_world)(Stdout := written request_world Stdout @
   ''{"level":"INFO","message":"request completed","path":"/health","status":200,"timestamp":"2024-01-02T03:04:05Z"}'')\<close>
proof (rule log_written_console [OF _ _ _ _ request_format])
  show "\<not> InfoLevel < cfg_Level (config json_logger)"
    by (simp add: json_logger_def DefaultConfig_def)
  show "handler json_logger = ConsoleHandler Stdout (JSONFormatter False False)"
    by (simp add: json_logger_def)
  show "allocated request_world (logger_fields json_logger)"
    by (simp add: allocated_def json_logger_def)
  show "allocated request_world (Some 0)"
    by (simp add: allocated_def request_world_def)
  show "write_error request_world Stdout = None"
    by (simp add: request_world_def example_world_def)
qed

text \<open>Whatever the entry, the bytes of the JSON formatter end with the closing brace.\<close>

lemma JSONFormatter_ends_with_brace:
  "Format (JSONFormatter addCaller addStack) w entry = Returns (Inr data) \<Longrightarrow>
     data \<noteq> [] \<and> last data = CHR ''}''"
  by (auto simp: JSONFormatter_Format_def json_Marshal_def split: sum.splits outcome.splits)

subsection \<open>Reading back what \<open>json.Marshal\<close> writes\<close>

lemma hex_value_hex_digit: "d < 16 \<Longrightarrow> hex_value (hex_digit d) = Some d"
  by (auto simp: hex_value_def hex_digit_def is_digit_def less_eq_char_def)

lemma prepend_simps [simp]:
  "prepend bs None = None"
  "prepend bs (Some (s, rest)) = Some (bs @ s, rest)"
  "prepend [] r = r"
  "prepend as (prepend bs r) = prepend (as @ bs) r"
  by (auto simp: prepend_def split: option.splits)

lemma unquote_copy:
  "c \<noteq> CHR 0x22 \<Longrightarrow> c \<noteq> CHR 0x5C \<Longrightarrow> (0x20::nat) \<le> of_char c \<Longrightarrow>
     unquote (c # s) = prepend [c] (unquote s)"
  by simp

lemma high_not_special:
  "(0x80::nat) \<le> of_char c \<Longrightarrow> c \<noteq> CHR 0x22 \<and> c \<noteq> CHR 0x5C \<and> (0x20::nat) \<le> of_char c"
  by auto

lemma unquote_copy_high:
  "list_all (\<lambda>c. (0x80::nat) \<le> of_char c) bs \<Longrightarrow> unquote (bs @ s) = prepend bs (unquote s)"
proof (induction bs)
  case Nil
  then show ?case by simp
next
  case (Cons b bs)
  then have "unquote ((b # bs) @ s) = prepend [b] (unquote (bs @ s))"
    using high_not_special [of b] by (simp del: unquote.simps add: unquote_copy)
  then show ?case using Cons by simp
qed

lemma unquote_u00:
  assumes "x < 0x80"
  shows "unquote (CHR 0x5C # CHR ''u'' # CHR ''0'' # CHR ''0'' # hex_digit (x div 16) # hex_digit (x mod 16) # s)
         = prepend [char_of x] (unquote s)"
proof -
  have "hex_value (CHR ''0'') = Some 0"
    by (simp add: hex_value_def is_digit_def)
  moreover have "hex_value (hex_digit (x div 16)) = Some (x div 16)"
    using assms by (intro hex_value_hex_digit) simp
  moreover have "hex_value (hex_digit (x mod 16)) = Some (x mod 16)"
    by (intro hex_value_hex_digit) simp
  ultimately have "hex4 (CHR ''0'') (CHR ''0'') (hex_digit (x div 16)) (hex_digit (x mod 16)) = Some x"
    by (simp add: hex4_def)
  then show ?thesis
    using assms by (simp add: utf8_encode_def)
qed

lemma unquote_escape_byte:
  assumes "(of_char c :: nat) < 0x80"
  shows "unquote (escape_byte c @ s) = prepend [c] (unquote s)"
proof (cases "htmlSafe c")
  case True
  then show ?thesis
    by (simp add: escape_byte_def htmlSafe_def)
next
  case False
  consider "c = CHR 0x5C \<or> c = CHR 0x22" | "c = CHR 0x08" | "c = CHR 0x0C" | "c = CHR 0x0A"
    | "c = CHR 0x0D" | "c = CHR 0x09"
    | "c \<noteq> CHR 0x5C" "c \<noteq> CHR 0x22" "c \<noteq> CHR 0x08" "c \<noteq> CHR 0x0C" "c \<noteq> CHR 0x0A"
      "c \<noteq> CHR 0x0D" "c \<noteq> CHR 0x09"
    by blast
  then show ?thesis
  proof cases
    case 1
    then show ?thesis using False by (auto simp: escape_byte_def htmlSafe_def unescape_def)
  next
    case 7
    then have "escape_byte c = [CHR 0x5C, CHR ''u'', CHR ''0'', CHR ''0'',
            hex_digit (of_char c div 16), hex_digit (of_char c mod 16)]"
      using False by (simp add: escape_byte_def)
    then show ?thesis
      using unquote_u00 [OF assms, of s] by (simp del: unquote.simps)
  qed (simp_all add: escape_byte_def htmlSafe_def unescape_def)
qed

lemma utf8_first_high: "utf8_first x = Some (n, lo, hi) \<Longrightarrow> 0x80 \<le> lo \<and> 0x80 \<le> x"
  by (auto simp: utf8_first_def split: if_splits)

lemma rune_bytes_high:
  assumes "utf8_rune_size s = Some n"
  shows "list_all (\<lambda>c. (0x80::nat) \<le> of_char c) (take n s)"
proof -
  obtain a b bs lo hi where s: "s = a # b # bs"
    and f: "utf8_first (of_char a) = Some (n, lo, hi)"
    and b: "lo \<le> of_char b" and c: "list_all continuation (take (n - 2) bs)"
    using assms
    by (auto simp: utf8_rune_size_def split: list.splits option.splits if_splits)
  have n: "2 \<le> n" using f utf8_first_size by blast
  have "take n s = a # b # take (n - 2) bs"
    using n s by (cases n; cases "n - 1") auto
  moreover have "list_all (\<lambda>c. (0x80::nat) \<le> of_char c) (take (n - 2) bs)"
    using c by (auto simp: list_all_iff continuation_def)
  ultimately show ?thesis
    using utf8_first_high [OF f] b by simp
qed

lemma hex_values:
  "hex_value (CHR ''0'') = Some 0" "hex_value (CHR ''2'') = Some 2" "hex_value (CHR ''8'') = Some 8"
  "hex_value (CHR ''9'') = Some 9" "hex_value (CHR ''f'') = Some 15" "hex_value (CHR ''d'') = Some 13"
  by (simp_all add: hex_value_def is_digit_def)

lemma utf8_encode_examples:
  "utf8_encode 0x2028 = line_separator"
  "utf8_encode 0x2029 = paragraph_separator"
  "utf8_encode 0xFFFD = replacement"
  by (simp_all add: utf8_encode_def line_separator_def paragraph_separator_def replacement_def
        char_of_eq_iff)

lemma unquote_line_separator:
  "unquote (CHR 0x5C # CHR ''u'' # CHR ''2'' # CHR ''0'' # CHR ''2'' # CHR ''8'' # s)
     = prepend line_separator (unquote s)"
  by (simp add: hex4_def hex_values utf8_encode_examples)

lemma unquote_paragraph_separator:
  "unquote (CHR 0x5C # CHR ''u'' # CHR ''2'' # CHR ''0'' # CHR ''2'' # CHR ''9'' # s)
     = prepend paragraph_separator (unquote s)"
  by (simp add: hex4_def hex_values utf8_encode_examples)

lemma unquote_replacement:
  "unquote (CHR 0x5C # CHR ''u'' # CHR ''f'' # CHR ''f'' # CHR ''f'' # CHR ''d'' # s)
     = prepend replacement (unquote s)"
  by (simp add: hex4_def hex_values utf8_encode_examples)

lemma unquote_json_escape:
  "unquote (json_escape s @ CHR 0x22 # rest) = Some (ToValidUTF8 s, rest)"
proof (induction s rule: json_escape.induct)
  case 1
  then show ?case by simp
next
  case (2 c cs)
  show ?case
  proof (cases "(of_char c :: nat) < 0x80")
    case True
    then show ?thesis
      using 2(1) by (simp add: json_escape.simps(2) ToValidUTF8.simps(2) unquote_escape_byte
            del: unquote.simps)
  next
    case False
    show ?thesis
    proof (cases "utf8_rune_size (c # cs)")
      case None
      then show ?thesis
        using False 2(2)
        by (simp add: json_escape.simps(2) ToValidUTF8.simps(2) unquote_replacement
              del: unquote.simps)
    next
      case (Some n)
      have copy: "unquote (take n (c # cs) @ t) = prepend (take n (c # cs)) (unquote t)" for t
        by (rule unquote_copy_high) (rule rune_bytes_high [OF Some])
      show ?thesis
        using False Some 2(3) [OF False Some] copy
          unquote_line_separator unquote_paragraph_separator
        by (simp add: json_escape.simps(2) ToValidUTF8.simps(2) del: unquote.simps)
    qed
  qed
qed

lemma is_digit_digit_char: "d < 10 \<Longrightarrow> is_digit (digit_char d)"
  by (auto simp: is_digit_def digit_char_def less_eq_char_def)

lemma digit_char_value: "d < 10 \<Longrightarrow> (of_char (digit_char d) :: nat) - 48 = d"
  by (simp add: digit_char_def)

lemma decimal_digits: "list_all is_digit (decimal n)"
proof (induction n rule: decimal.induct)
  case (1 n)
  then show ?case
    by (subst decimal.simps) (auto simp: is_digit_digit_char)
qed

lemma decimal_nonempty: "decimal n \<noteq> []"
  by (subst decimal.simps) simp

lemma digits_value_snoc: "digits_value (ds @ [c]) = digits_value ds * 10 + (of_char c - 48)"
  by (simp add: digits_value_def)

lemma digits_value_decimal: "digits_value (decimal n) = n"
proof (induction n rule: decimal.induct)
  case (1 n)
  show ?case
  proof (cases "n < 10")
    case True
    then show ?thesis
      by (subst decimal.simps) (simp add: digits_value_def digit_char_value)
  next
    case False
    then have "digits_value (decimal n) = digits_value (decimal (n div 10)) * 10 + n mod 10"
      by (subst decimal.simps) (simp add: digits_value_snoc digit_char_value)
    then show ?thesis using 1 False by simp
  qed
qed

lemma takeWhile_all:
  "list_all P xs \<Longrightarrow> rest = [] \<or> \<not> P (hd rest) \<Longrightarrow>
     takeWhile P (xs @ rest) = xs \<and> dropWhile P (xs @ rest) = rest"
proof (induction xs)
  case Nil
  then show ?case by (cases rest) auto
next
  case (Cons x xs)
  then show ?case by simp
qed

lemma hd_decimal_digit: "is_digit (hd (decimal n))"
  using decimal_digits [of n] decimal_nonempty [of n]
  by (cases "decimal n") auto

lemma is_digit_not_minus: "is_digit c \<Longrightarrow> c \<noteq> CHR ''-''"
  by (auto simp: is_digit_def less_eq_char_def)

lemma digit_char_zero: "d < 10 \<Longrightarrow> digit_char d = CHR ''0'' \<longleftrightarrow> d = 0"
  by (auto simp: digit_char_def char_of_eq_iff take_bit_eq_mod)

lemma decimal_leading: "0 < n \<Longrightarrow> hd (decimal n) \<noteq> CHR ''0''"
proof (induction n rule: decimal.induct)
  case (1 n)
  show ?case
  proof (cases "n < 10")
    case True
    then show ?thesis
      using 1(2) by (simp add: decimal_small digit_char_zero)
  next
    case False
    then have "hd (decimal n) = hd (decimal (n div 10))"
      using decimal_nonempty [of "n div 10"] by (simp add: decimal_large)
    then show ?thesis
      using 1(1) False by simp
  qed
qed

lemma decimal_no_leading_zero: "(hd (decimal n) = CHR ''0'' \<and> tl (decimal n) \<noteq> []) = False"
proof (cases "n < 10")
  case True
  then show ?thesis by (simp add: decimal_small)
next
  case False
  then show ?thesis using decimal_leading [of n] by simp
qed

lemma parse_number_Itoa:
  assumes "no_digit_ahead rest"
  shows "parse_number (strconv_Itoa i @ rest) = Some (JNumber i, rest)"
proof (cases "i < 0")
  case True
  have "takeWhile is_digit (decimal (nat (- i)) @ rest) = decimal (nat (- i))
        \<and> dropWhile is_digit (decimal (nat (- i)) @ rest) = rest"
    using assms by (intro takeWhile_all decimal_digits) (simp add: no_digit_ahead_def)
  then show ?thesis
    using True
    by (simp add: parse_number_def strconv_Itoa_def decimal_nonempty digits_value_decimal
          decimal_no_leading_zero Let_def)
next
  case False
  have t: "takeWhile is_digit (decimal (nat i) @ rest) = decimal (nat i)
        \<and> dropWhile is_digit (decimal (nat i) @ rest) = rest"
    using assms by (intro takeWhile_all decimal_digits) (simp add: no_digit_ahead_def)
  have "hd (decimal (nat i) @ rest) \<noteq> CHR ''-''"
    using hd_decimal_digit [of "nat i"] decimal_nonempty [of "nat i"] is_digit_not_minus
    by (simp add: hd_append)
  then show ?thesis
    using False t
    by (simp add: parse_number_def strconv_Itoa_def decimal_nonempty digits_value_decimal
          decimal_no_leading_zero Let_def)
qed

lemma skip_space_start: "s \<noteq> [] \<Longrightarrow> \<not> is_space (hd s) \<Longrightarrow> skip_space (s @ rest) = s @ rest"
  by (cases s) (simp_all add: skip_space_def)

lemma number_start:
  "c = CHR ''-'' \<or> is_digit c \<Longrightarrow>
     \<not> is_space c \<and> c \<noteq> CHR ''n'' \<and> c \<noteq> CHR ''t'' \<and> c \<noteq> CHR ''f'' \<and> c \<noteq> CHR 0x22
     \<and> c \<noteq> CHR ''['' \<and> c \<noteq> CHR ''{'' \<and> c \<noteq> CHR '']''"
  by (auto simp: is_digit_def is_space_def less_eq_char_def)

lemma Itoa_start: "\<exists>c cs. strconv_Itoa i = c # cs \<and> (c = CHR ''-'' \<or> is_digit c)"
proof (cases "i < 0")
  case True
  then show ?thesis by (simp add: strconv_Itoa_def)
next
  case False
  then show ?thesis
    using hd_decimal_digit [of "nat i"] decimal_nonempty [of "nat i"]
    by (cases "decimal (nat i)") (auto simp: strconv_Itoa_def)
qed

lemma parse_value_Itoa:
  assumes "no_digit_ahead rest"
  shows "parse_value (Suc n) (strconv_Itoa i @ rest) = Some (JNumber i, rest)"
proof -
  obtain c cs where s: "strconv_Itoa i = c # cs" and c: "c = CHR ''-'' \<or> is_digit c"
    using Itoa_start by blast
  have "parse_value (Suc n) ((c # cs) @ rest) = parse_number ((c # cs) @ rest)"
    using number_start [OF c] c by (auto simp: skip_space_def)
  then show ?thesis
    using parse_number_Itoa [OF assms, of i] s by simp
qed

lemma parse_value_quote:
  "parse_value (Suc n) (json_quote s @ rest) = Some (JString (ToValidUTF8 s), rest)"
  by (simp add: json_quote_def skip_space_def is_space_def unquote_json_escape del: unquote.simps)

lemma marshal_Value_start:
  "marshal_Value v = Inr s \<Longrightarrow> s \<noteq> [] \<and> \<not> is_space (hd s) \<and> hd s \<noteq> CHR '']''"
proof (cases v)
  case (VInt i)
  assume "marshal_Value v = Inr s"
  then have s: "s = strconv_Itoa i" using VInt by simp
  obtain c cs where "strconv_Itoa i = c # cs" "c = CHR ''-'' \<or> is_digit c"
    using Itoa_start by blast
  then show ?thesis using s number_start [of c] by simp
qed (auto simp: is_space_def json_quote_def split: sum.splits if_splits)

lemma marshal_Values_start:
  "marshal_Values False vs = Inr t \<Longrightarrow> t = [] \<or> hd t = CHR '',''"
  by (cases vs) (auto simp: comma_def split: sum.splits)

lemma no_digit_ahead_simps [simp]:
  "no_digit_ahead []"
  "no_digit_ahead (CHR '','' # s)"
  "no_digit_ahead (CHR '']'' # s)"
  "no_digit_ahead (CHR ''}'' # s)"
  by (simp_all add: no_digit_ahead_def is_digit_def less_eq_char_def)

lemma no_digit_ahead_items:
  "marshal_Values False vs = Inr t \<Longrightarrow> no_digit_ahead (t @ CHR '']'' # rest)"
  using marshal_Values_start [of vs t]
  by (cases t) (auto simp: no_digit_ahead_def is_digit_def less_eq_char_def)

lemma parse_marshal:
  "marshal_Value v = Inr s \<Longrightarrow> no_digit_ahead rest \<Longrightarrow> length s \<le> n \<Longrightarrow>
     parse_value n (s @ rest) = Some (json_read v, rest)"
  "marshal_Values first vs = Inr t \<Longrightarrow> length t < n \<Longrightarrow>
     parse_items n first (t @ CHR '']'' # rest) = Some (map json_read vs, rest)"
proof (induction v and first vs arbitrary: s rest n and t rest n
       rule: marshal_Value_marshal_Values.induct)
  case 1
  then obtain m where "n = Suc m" by (cases n) auto
  with 1 show ?case by (auto simp: skip_space_def is_space_def expect_def)
next
  case (2 b)
  then obtain m where "n = Suc m" by (cases n; cases b) auto
  with 2 show ?case by (cases b) (auto simp: skip_space_def is_space_def expect_def)
next
  case (3 i)
  then obtain m where "n = Suc m"
    using Itoa_start [of i] by (cases n) auto
  with 3 show ?case using parse_value_Itoa by auto
next
  case (4 x)
  then obtain m where "n = Suc m" by (cases n) (auto simp: json_quote_def)
  with 4 show ?case using parse_value_quote by auto
next
  case (5 vs)
  then obtain t where t: "marshal_Values True vs = Inr t" and s: "s = CHR ''['' # t @ [CHR '']'']"
    by (auto split: sum.splits)
  then obtain m where n: "n = Suc m" and m: "length t < m"
    using 5(4) by (cases n) auto
  have "parse_items m True (t @ CHR '']'' # rest) = Some (map json_read vs, rest)"
    using 5(1) [OF t m] .
  then show ?case
    using s n by (simp add: skip_space_def is_space_def)
next
  case (6 a)
  then show ?case by simp
next
  case 7
  then obtain m where "n = Suc m" by (cases n) auto
  with 7 show ?case by (auto simp: skip_space_def is_space_def expect_def)
next
  case (8 first)
  then obtain m where "n = Suc m" by (cases n) auto
  with 8 show ?case by (auto simp: skip_space_def is_space_def)
next
  case (9 first v vs)
  from 9(3) obtain sv st where sv: "marshal_Value v = Inr sv"
    and st: "marshal_Values False vs = Inr st" and t: "t = comma first @ sv @ st"
    by (auto split: sum.splits)
  obtain m where n: "n = Suc m" and m: "length t \<le> m"
    using 9(4) by (cases n) auto
  have start: "sv \<noteq> []" "\<not> is_space (hd sv)" "hd sv \<noteq> CHR '']''"
    using marshal_Value_start [OF sv] by auto
  have v: "parse_value m (sv @ st @ CHR '']'' # rest) = Some (json_read v, st @ CHR '']'' # rest)"
    using 9(1) [OF sv no_digit_ahead_items [OF st]] m t by simp
  have "length st < m"
    using m t start(1) by (cases sv) auto
  then have vs: "parse_items m False (st @ CHR '']'' # rest) = Some (map json_read vs, rest)"
    using 9(2) [OF sv st] by simp
  obtain c cs where c: "sv = c # cs" using start(1) by (cases sv) auto
  show ?case
  proof (cases first)
    case True
    then show ?thesis
      using n t c start v vs by (simp add: comma_def skip_space_def)
  next
    case False
    then show ?thesis
      using n t v vs by (simp add: comma_def skip_space_def is_space_def)
  qed
qed

lemma json_read_exact: "utf8_value v \<Longrightarrow> json_read v = json_of v"
  by (induction v rule: json_of.induct) (auto simp: valid_utf8_def list_all_iff)

lemma marshalable_ok:
  "marshalable v \<Longrightarrow> \<exists>s. marshal_Value v = Inr s"
  "list_all marshalable vs \<Longrightarrow> \<exists>t. marshal_Values first vs = Inr t"
  by (induction v and first vs rule: marshal_Value_marshal_Values.induct) auto

lemma marshal_members_ok:
  "list_all (\<lambda>kv. marshalable (snd kv)) kvs \<Longrightarrow> \<exists>t. marshal_members first kvs = Inr t"
proof (induction kvs arbitrary: first)
  case Nil
  then show ?case by simp
next
  case (Cons kv kvs)
  obtain k v where kv: "kv = (k, v)" by (cases kv)
  obtain s where "marshal_Value v = Inr s"
    using Cons.prems kv marshalable_ok(1) by auto
  moreover obtain t where "marshal_members False kvs = Inr t"
    using Cons by auto
  ultimately show ?case using kv by simp
qed

lemma marshal_members_start:
  "marshal_members False kvs = Inr t \<Longrightarrow> t = [] \<or> hd t = CHR '',''"
  by (cases kvs) (auto simp: comma_def split: sum.splits)

lemma no_digit_ahead_members:
  "marshal_members False kvs = Inr t \<Longrightarrow> no_digit_ahead (t @ CHR ''}'' # rest)"
  using marshal_members_start [of kvs t]
  by (cases t) (auto simp: no_digit_ahead_def is_digit_def less_eq_char_def)

lemma parse_member_key:
  "parse_members (Suc m) first (comma first @ json_quote k @ CHR '':'' # u) =
     (case parse_value m u of
        None \<Rightarrow> None
      | Some (x, r) \<Rightarrow>
          (case parse_members m False r of
             None \<Rightarrow> None
           | Some (kvs, r3) \<Rightarrow> Some ((ToValidUTF8 k, x) # kvs, r3)))"
proof -
  have u: "unquote (json_escape k @ CHR 0x22 # CHR '':'' # u) = Some (ToValidUTF8 k, CHR '':'' # u)"
    by (rule unquote_json_escape)
  show ?thesis
    using u by (cases first)
      (simp_all add: comma_def json_quote_def skip_space_def is_space_def del: unquote.simps)
qed

lemma parse_marshal_members:
  "marshal_members first kvs = Inr t \<Longrightarrow> length t < n \<Longrightarrow>
     parse_members n first (t @ CHR ''}'' # rest) = Some (map read_member kvs, rest)"
proof (induction kvs arbitrary: first t n)
  case Nil
  then obtain m where "n = Suc m" by (cases n) auto
  with Nil show ?case by (auto simp: skip_space_def is_space_def)
next
  case (Cons kv kvs)
  obtain k v where kv: "kv = (k, v)" by (cases kv)
  from Cons.prems(1) obtain sv st where sv: "marshal_Value v = Inr sv"
    and st: "marshal_members False kvs = Inr st"
    and t: "t = comma first @ json_quote k @ CHR '':'' # sv @ st"
    using kv by (auto split: sum.splits)
  obtain m where n: "n = Suc m" and m: "length t \<le> m"
    using Cons.prems(2) by (cases n) auto
  have v: "parse_value m (sv @ st @ CHR ''}'' # rest) = Some (json_read v, st @ CHR ''}'' # rest)"
    using parse_marshal(1) [OF sv no_digit_ahead_members [OF st]] m t by simp
  have "length st < m"
    using m t by simp
  then have r: "parse_members m False (st @ CHR ''}'' # rest) = Some (map read_member kvs, rest)"
    using Cons.IH [OF st] by simp
  have "parse_members (Suc m) first (comma first @ json_quote k @ CHR '':'' # (sv @ st @ CHR ''}'' # rest))
        = Some ((ToValidUTF8 k, json_read v) # map read_member kvs, rest)"
    unfolding parse_member_key using v r by simp
  then show ?case
    using n t kv by (simp add: read_member_def)
qed

lemma parse_json_Marshal:
  assumes "json_Marshal data = Inr bytes"
  shows "parse_json bytes = Some (JObject (map read_member (sorted_items data)))"
proof -
  obtain t where t: "marshal_members True (sorted_items data) = Inr t"
    and b: "bytes = CHR ''{'' # t @ [CHR ''}'']"
    using assms by (auto simp: json_Marshal_def split: sum.splits)
  have "parse_members (length bytes) True (t @ CHR ''}'' # []) = Some (map read_member (sorted_items data), [])"
    by (rule parse_marshal_members [OF t]) (simp add: b)
  then have "parse_value (Suc (length bytes)) bytes = Some (JObject (map read_member (sorted_items data)), [])"
    using b by (simp add: skip_space_def is_space_def del: parse_members.simps)
  then show ?thesis
    by (simp add: parse_json_def skip_space_def)
qed

lemma ToValidUTF8_ascii: "list_all (\<lambda>c. (of_char c :: nat) < 0x80) s \<Longrightarrow> ToValidUTF8 s = s"
  by (induction s) (simp_all add: ToValidUTF8.simps(2))

lemma formatter_keys_valid: "k \<in> formatter_keys \<Longrightarrow> valid_utf8 k"
  by (auto simp: formatter_keys_def valid_utf8_def ToValidUTF8_ascii)

lemma fields_nonempty: "fmlookup m k = Some v \<Longrightarrow> 0 < fcard (fmdom m)"
proof -
  assume "fmlookup m k = Some v"
  then have "k |\<in>| fmdom m" by (simp add: fmlookup_dom_iff)
  then have "fmdom m \<noteq> {||}" by auto
  then have "fcard (fmdom m) \<noteq> 0" by (metis fcard_0_eq)
  then show ?thesis by arith
qed

lemma data_after_fields:
  "fmlookup (if 0 < fcard (fmdom F) then range_put F base else base) k =
     (case fmlookup F k of Some v \<Rightarrow> Some v | None \<Rightarrow> fmlookup base k)"
proof (cases "fmlookup F k")
  case None
  then show ?thesis by (simp add: range_put_eq fmlookup_dom_iff)
next
  case (Some v)
  then show ?thesis using fields_nonempty [OF Some] by (simp add: range_put_eq fmlookup_dom_iff)
qed

lemma JSONFormatter_data_returns:
  "Error entry \<noteq> Some NilPointer \<Longrightarrow>
     JSONFormatter_data addCaller addStack w entry = Returns (entry_object addCaller addStack w entry)"
  by (cases "Error entry"; cases "the (Error entry)")
     (simp_all add: JSONFormatter_data_def entry_object_def Let_def error_text_def)

lemma data_lookup:
  "fmlookup (entry_object addCaller addStack w entry) k =
     (if addStack \<and> Error entry \<noteq> None \<and> stack_frames w 10 \<noteq> [] \<and> k = ''stack''
      then Some (VSlice (map VString (map (\<lambda>fr. frame_location fr @ '' '' @ frame_func fr)
                                        (stack_frames w 10))))
      else if addCaller \<and> runtime_Caller w 3 \<noteq> None \<and> k = ''function''
      then Some (VString (frame_func (the (runtime_Caller w 3))))
      else if addCaller \<and> runtime_Caller w 3 \<noteq> None \<and> k = ''caller''
      then Some (VString (frame_location (the (runtime_Caller w 3))))
      else if Error entry \<noteq> None \<and> k = ''error''
      then Some (VString (error_text (the (Error entry))))
      else (case fmlookup (deref w (Fields entry)) k of
              Some v \<Rightarrow> Some v
            | None \<Rightarrow>
                if k = ''message'' then Some (VString (Message entry))
                else if k = ''timestamp'' then Some (VString (Time_Format_RFC3339 (Timestamp entry)))
                else if k = ''level'' then Some (VString (Level_String (Level entry)))
                else None))"
proof -
  let ?base = "fmupd ''message'' (VString (Message entry))
                  (fmupd ''timestamp'' (VString (Time_Format_RFC3339 (Timestamp entry)))
                    (fmupd ''level'' (VString (Level_String (Level entry))) fmempty))"
  let ?d1 = "if 0 < fcard (fmdom (deref w (Fields entry)))
             then range_put (deref w (Fields entry)) ?base else ?base"
  have d1: "fmlookup ?d1 k =
     (case fmlookup (deref w (Fields entry)) k of
              Some v \<Rightarrow> Some v
            | None \<Rightarrow>
                if k = ''message'' then Some (VString (Message entry))
                else if k = ''timestamp'' then Some (VString (Time_Format_RFC3339 (Timestamp entry)))
                else if k = ''level'' then Some (VString (Level_String (Level entry)))
                else None)"
    unfolding data_after_fields by (simp split: option.splits)
  show ?thesis
    unfolding entry_object_def Let_def d1 [symmetric]
    by (cases "Error entry"; cases "runtime_Caller w 3"; cases addCaller; cases addStack;
        cases "stack_frames w 10 = []") simp_all
qed

lemma data_items:
  assumes "fmlookup (entry_object addCaller addStack w entry) k = Some v"
  shows "fmlookup (deref w (Fields entry)) k = Some v
         \<or> (k \<in> formatter_keys \<and> marshalable v)"
  using assms unfolding data_lookup
  by (auto simp: formatter_keys_def list_all_iff split: if_splits option.splits)

lemma Level_String_valid: "ToValidUTF8 (Level_String l) = Level_String l"
  by (simp add: Level_String_def ToValidUTF8_ascii)

lemma map_of_read_members:
  assumes "\<forall>kv \<in> set xs. valid_utf8 (fst kv)"
  shows "map_of (map read_member xs) k = map_option json_read (map_of xs k)"
  using assms by (induction xs) (auto simp: read_member_def valid_utf8_def)

lemma valid_utf8_ascii: "list_all (\<lambda>c. (of_char c :: nat) < 0x80) s \<Longrightarrow> valid_utf8 s"
  by (simp add: valid_utf8_def ToValidUTF8_ascii)

lemma shadow_data:
  "JSONFormatter_data False False shadow_world shadow_entry
   = Returns (fmupd ''message'' (VString ''overridden'')
       (fmupd ''timestamp'' (VString ''2024-01-02T03:04:05Z'')
          (fmupd ''level'' (VString ''INFO'') fmempty)))"
  by (simp add: JSONFormatter_data_def shadow_world_def shadow_entry_def
        example_world_def deref_def range_put_eq example_rfc3339 Level_String_def Level_defs
        Let_def fcard_finsert_if)

lemma shadow_items:
  "sorted_items (fmupd ''message'' (VString ''overridden'')
       (fmupd ''timestamp'' (VString ''2024-01-02T03:04:05Z'')
          (fmupd ''level'' (VString ''INFO'') fmempty)))
   = [(''level'', VString ''INFO''), (''message'', VString ''overridden''),
      (''timestamp'', VString ''2024-01-02T03:04:05Z'')]"
  by (simp add: sorted_items_fmupd)

lemma shadow_members:
  \<open>marshal_members True [(''level'', VString ''INFO''), (''message'', VString ''overridden''),
      (''timestamp'', VString ''2024-01-02T03:04:05Z'')]
   = Inr ''"level":"INFO","message":"overridden","timestamp":"2024-01-02T03:04:05Z"''\<close>
  apply (simp add: comma_def)
  apply (simp add: json_quote_plain plain_def htmlSafe_def)
  done

lemma shadow_Marshal:
  \<open>json_Marshal (fmupd ''message'' (VString ''overridden'')
       (fmupd ''timestamp'' (VString ''2024-01-02T03:04:05Z'')
          (fmupd ''level'' (VString ''INFO'') fmempty)))
   = Inr ''{"level":"INFO","message":"overridden","timestamp":"2024-01-02T03:04:05Z"}''\<close>
  by (simp add: json_Marshal_def shadow_items shadow_members
        del: marshal_members.simps)

lemma shadow_read:
  "map read_member [(''level'', VString ''INFO''), (''message'', VString ''overridden''),
      (''timestamp'', VString ''2024-01-02T03:04:05Z'')]
   = [(''level'', JString ''INFO''), (''message'', JString ''overridden''),
      (''timestamp'', JString ''2024-01-02T03:04:05Z'')]"
  by (simp add: read_member_def ToValidUTF8_ascii)

section \<open>The claims\<close>

text \<open>
  C1. A call of \<open>log\<close> below the logger's minimum level returns at once: it returns
  to its caller with the world as it was before the call, so no handler was called
  (\<open>handled\<close> is unchanged), nothing was written, the clock was not read and no map was
  allocated for an entry.
\<close>

theorem log_below_threshold:
  "level < cfg_Level (config l) \<Longrightarrow>
     logger_log l ctx level msg err flds w = (Returned, w)
     \<and> handled (snd (logger_log l ctx level msg err flds w)) = handled w
     \<and> written (snd (logger_log l ctx level msg err flds w)) = written w
     \<and> ticks (snd (logger_log l ctx level msg err flds w)) = ticks w
     \<and> next_ref (snd (logger_log l ctx level msg err flds w)) = next_ref w"
  by (simp add: logger_log_def)

theorem log_below_threshold_witness:
  "DebugLevel < cfg_Level (config warn_logger)
   \<and> logger_log warn_logger None DebugLevel ''cache miss'' None None example_world
       = (Returned, example_world)
   \<and> handled (snd (logger_log warn_logger None DebugLevel ''cache miss'' None None example_world)) = []"
  using log_below_threshold [of DebugLevel warn_logger None "''cache miss''" None None example_world]
  by (simp add: warn_logger_def DefaultConfig_def Level_defs example_world_def)

text \<open>
  C2. \<open>WithFields\<close> on a logger with base fields B and argument C returns a logger whose
  map is B overlaid with C (every key of C with C's value, every other key of B with
  B's value). No map that existed before the call is changed, so B and C are as before;
  an entry logged afterwards through the new logger carries B overlaid with C (and then
  the fields of that call), one logged through the receiver carries B (and the fields of
  that call).
\<close>

theorem WithFields_merges:
  assumes "allocated w (logger_fields l)" and "allocated w flds"
  shows "deref (snd (logger_WithFields l flds w)) (logger_fields (fst (logger_WithFields l flds w)))
           = deref w (logger_fields l) ++\<^sub>f deref w flds
         \<and> (\<forall>k. fmlookup (deref (snd (logger_WithFields l flds w))
                             (logger_fields (fst (logger_WithFields l flds w)))) k
                = (if k |\<in>| fmdom (deref w flds) then fmlookup (deref w flds) k
                   else fmlookup (deref w (logger_fields l)) k))
         \<and> deref (snd (logger_WithFields l flds w)) (logger_fields l) = deref w (logger_fields l)
         \<and> deref (snd (logger_WithFields l flds w)) flds = deref w flds
         \<and> (\<forall>a. a < next_ref w \<longrightarrow> heap (snd (logger_WithFields l flds w)) a = heap w a)
         \<and> config (fst (logger_WithFields l flds w)) = config l
         \<and> handler (fst (logger_WithFields l flds w)) = handler l
         \<and> (\<forall>ctx level msg err f. allocated (snd (logger_WithFields l flds w)) f \<longrightarrow>
               deref (snd (log_entry (fst (logger_WithFields l flds w)) ctx level msg err f
                             (snd (logger_WithFields l flds w))))
                     (Fields (fst (log_entry (fst (logger_WithFields l flds w)) ctx level msg err f
                                     (snd (logger_WithFields l flds w)))))
                 = (deref w (logger_fields l) ++\<^sub>f deref w flds)
                   ++\<^sub>f deref (snd (logger_WithFields l flds w)) f
             \<and> deref (snd (log_entry l ctx level msg err f (snd (logger_WithFields l flds w))))
                     (Fields (fst (log_entry l ctx level msg err f (snd (logger_WithFields l flds w)))))
                 = deref w (logger_fields l) ++\<^sub>f deref (snd (logger_WithFields l flds w)) f)"
proof -
  let ?l' = "fst (logger_WithFields l flds w)" and ?w' = "snd (logger_WithFields l flds w)"
  have l': "?l' = \<lparr>config = config l, handler = handler l, logger_fields = Some (next_ref w)\<rparr>"
    using assms by (simp add: logger_WithFields_def split_def Let_def merge_fields_heap)
  have h: "heap ?w' = (heap w)(next_ref w := deref w (logger_fields l) ++\<^sub>f deref w flds)"
    using assms by (simp add: logger_WithFields_def split_def Let_def merge_fields_heap)
  have n: "next_ref ?w' = Suc (next_ref w)"
    by (simp add: logger_WithFields_def split_def Let_def)
  have new: "deref ?w' (logger_fields ?l') = deref w (logger_fields l) ++\<^sub>f deref w flds"
    by (simp add: l' h deref_def)
  have old: "deref ?w' (logger_fields l) = deref w (logger_fields l)" "deref ?w' flds = deref w flds"
    using assms h by (auto intro: deref_allocated)
  have a': "allocated ?w' (logger_fields ?l')" "allocated ?w' (logger_fields l)"
    using assms(1) by (simp_all add: l' n allocated_def split: option.splits)
  have e1: "deref (snd (log_entry ?l' ctx level msg err f ?w'))
                  (Fields (fst (log_entry ?l' ctx level msg err f ?w')))
            = (deref w (logger_fields l) ++\<^sub>f deref w flds) ++\<^sub>f deref ?w' f"
    if "allocated ?w' f" for ctx level msg err f
    using log_entry_deref [OF a'(1) that] new by simp
  have e2: "deref (snd (log_entry l ctx level msg err f ?w'))
                  (Fields (fst (log_entry l ctx level msg err f ?w')))
            = deref w (logger_fields l) ++\<^sub>f deref ?w' f"
    if "allocated ?w' f" for ctx level msg err f
    using log_entry_deref [OF a'(2) that] old by simp
  show ?thesis
    unfolding new old
    using e1 e2 by (simp add: l' h)
qed

theorem WithFields_merges_witness:
  "allocated scoped_world (logger_fields base_logger) \<and> allocated scoped_world (Some 1)
   \<and> fmlookup (deref (snd (logger_WithFields base_logger (Some 1) scoped_world))
                  (logger_fields (fst (logger_WithFields base_logger (Some 1) scoped_world))))
         ''service'' = Some (VString ''web'')
   \<and> fmlookup (deref (snd (logger_WithFields base_logger (Some 1) scoped_world))
                  (logger_fields (fst (logger_WithFields base_logger (Some 1) scoped_world))))
         ''version'' = Some (VInt 1)
   \<and> fmlookup (deref (snd (logger_WithFields base_logger (Some 1) scoped_world))
                  (logger_fields (fst (logger_WithFields base_logger (Some 1) scoped_world))))
         ''request_id'' = Some (VString ''r-17'')
   \<and> fmlookup (deref (snd (logger_WithFields base_logger (Some 1) scoped_world))
                  (logger_fields base_logger))
         ''service'' = Some (VString ''api'')"
proof -
  have a1: "allocated scoped_world (logger_fields base_logger)"
    by (simp add: allocated_def base_logger_def scoped_world_def)
  have a2: "allocated scoped_world (Some 1)"
    by (simp add: allocated_def scoped_world_def)
  have b: "deref scoped_world (logger_fields base_logger)
             = fmupd ''service'' (VString ''api'') (fmupd ''version'' (VInt 1) fmempty)"
    by (simp add: deref_def base_logger_def scoped_world_def)
  have c: "deref scoped_world (Some (Suc 0))
             = fmupd ''service'' (VString ''web'') (fmupd ''request_id'' (VString ''r-17'') fmempty)"
    by (simp add: deref_def scoped_world_def)
  note t = WithFields_merges [OF a1 a2]
  show ?thesis
    using a1 a2 t [THEN conjunct1] t [THEN conjunct2, THEN conjunct2, THEN conjunct1]
    by (simp add: b c)
qed

text \<open>
  C3. When the handler's \<open>Handle\<close> returns an error, \<open>log\<close> still returns to its
  caller (it neither panics nor ends the process), and what it did after the failed call
  is exactly one call of \<open>Handle\<close> on a console handler for stderr with a text
  formatter, on an entry of level Error: the configured handler is not called again, and
  stderr receives the diagnostic line (or the part of it that a failing stderr lets
  through).
\<close>

theorem log_fallback:
  assumes "\<not> level < cfg_Level (config l)"
      and "log_entry l ctx level msg err flds w = (entry, w4)"
      and "Handle (handler l) entry w4 = (Returns (Some e), w5)"
  shows "logger_log l ctx level msg err flds w =
           (Returned,
            snd (Handle (ConsoleHandler Stderr (TextFormatter False False))
                   (fallback_entry e (clock w5 (ticks w5))) (snd (time_Now w5))))
         \<and> fst (logger_log l ctx level msg err flds w) = Returned
         \<and> handled (snd (logger_log l ctx level msg err flds w)) =
             handled w5 @ [(ConsoleHandler Stderr (TextFormatter False False),
                            fallback_entry e (clock w5 (ticks w5)))]
         \<and> Level (fallback_entry e (clock w5 (ticks w5))) = ErrorLevel
         \<and> written (snd (logger_log l ctx level msg err flds w)) =
             (written w5)(Stderr := written w5 Stderr @
                (case write_error w5 Stderr of
                   None \<Rightarrow> fallback_line e (clock w5 (ticks w5))
                 | Some _ \<Rightarrow> take (short_write w5 Stderr) (fallback_line e (clock w5 (ticks w5)))))"
proof -
  have e: "e \<noteq> NilPointer"
    using Handle_error(1) [of "handler l" entry w4 e] assms(3) by simp
  have log: "logger_log l ctx level msg err flds w =
           (Returned,
            snd (Handle (ConsoleHandler Stderr (TextFormatter False False))
                   (fallback_entry e (clock w5 (ticks w5))) (snd (time_Now w5))))"
    using assms e
    by (simp add: logger_log_def NewConsoleHandler_def split_def Let_def fallback_Handle
          del: Handle.simps)
  have lvl: "Level (fallback_entry e (clock w5 (ticks w5))) = ErrorLevel"
    by (simp add: fallback_entry_def)
  show ?thesis
    using lvl e unfolding log
    by (simp add: fallback_Handle Write_def split: option.splits del: Handle.simps)
qed

theorem log_fallback_witness:
  "\<not> InfoLevel < cfg_Level (config text_logger)
   \<and> fst (Handle (handler text_logger)
               (fst (log_entry text_logger None InfoLevel ''started'' None None broken_stdout_world))
               (snd (log_entry text_logger None InfoLevel ''started'' None None broken_stdout_world)))
         = Returns (Some (Err ''file already closed''))
   \<and> written (snd (logger_log text_logger None InfoLevel ''started'' None None broken_stdout_world)) Stderr
       = ''2024-01-02T03:04:05.000Z [ERROR] Failed to write log entry error=file already closed'' @ [CHR 0x0A]
   \<and> written (snd (logger_log text_logger None InfoLevel ''started'' None None broken_stdout_world)) Stdout = []
   \<and> fst (logger_log text_logger None InfoLevel ''started'' None None broken_stdout_world) = Returned"
proof -
  let ?le = "log_entry text_logger None InfoLevel ''started'' None None broken_stdout_world"
  let ?h = "Handle (handler text_logger) (fst ?le) (snd ?le)"
  have lvl: "\<not> InfoLevel < cfg_Level (config text_logger)"
    by (simp add: text_logger_def DefaultConfig_def)
  have h: "?h = (Returns (Some (Err ''file already closed'')), snd ?h)"
    using broken_Handle by (simp add: prod_eq_iff del: Handle.simps)
  have w5: "written (snd ?h) = (\<lambda>_. [])" "write_error (snd ?h) Stderr = None"
    "clock (snd ?h) (ticks (snd ?h)) = example_time"
    by (simp_all add: text_logger_def TextFormatter_Format_def Let_def Write_def log_entry_value
          broken_stdout_world_def example_world_def fun_eq_iff split_def)
  have le: "?le = (fst ?le, snd ?le)"
    by simp
  note f = log_fallback [OF lvl le h]
  have ex: "fst (logger_log text_logger None InfoLevel ''started'' None None broken_stdout_world) = Returned"
    using f [THEN conjunct2, THEN conjunct1] .
  have wr: "written (snd (logger_log text_logger None InfoLevel ''started'' None None broken_stdout_world))
            = (\<lambda>_. [])(Stderr := fallback_line (Err ''file already closed'') example_time)"
    using f [THEN conjunct2, THEN conjunct2, THEN conjunct2, THEN conjunct2]
    by (simp only: w5 option.case append_Nil)
  show ?thesis
    using lvl broken_Handle ex by (simp add: wr broken_line del: Handle.simps)
qed






text \<open>
  C6. When the formatter returns an error, the console handler and the file handler
  return that error and leave every sink as it was.
\<close>

theorem format_error_aborts_write:
  "Format formatter w entry = Returns (Inl err) \<Longrightarrow>
     Handle (ConsoleHandler out formatter) entry w
       = (Returns (Some err), enter_Handle (ConsoleHandler out formatter) entry w)
     \<and> written (snd (Handle (ConsoleHandler out formatter) entry w)) = written w
     \<and> Handle (FileHandler writer formatter) entry w
       = (Returns (Some err), enter_Handle (FileHandler writer formatter) entry w)
     \<and> written (snd (Handle (FileHandler writer formatter) entry w)) = written w"
  by (simp add: Let_def)

theorem format_error_aborts_write_witness:
  "Format (JSONFormatter False False) chan_world chan_entry
     = Returns (Inl (Err ''json: unsupported type: chan int''))
   \<and> fst (Handle (ConsoleHandler Stdout (JSONFormatter False False)) chan_entry chan_world)
       = Returns (Some (Err ''json: unsupported type: chan int''))
   \<and> written (snd (Handle (ConsoleHandler Stdout (JSONFormatter False False)) chan_entry chan_world))
       = written chan_world"
  using format_error_aborts_write [OF chan_format, of Stdout]
  by (simp add: chan_format del: Handle.simps Format.simps)



text \<open>
  C8. \<open>NewLogger\<close> replaces a level out of range by Info, an unknown format by json
  and an unknown output by stdout, and fails only when the output is "file" and the
  directory of the log file cannot be created.
\<close>

theorem NewLogger_defaults:
  "fst (NewLogger c w) =
     (let level = (if DebugLevel \<le> cfg_Level c \<and> cfg_Level c \<le> FatalLevel
                   then cfg_Level c else InfoLevel);
          format = (if cfg_Format c = ''text'' then ''text'' else ''json'');
          out = (if cfg_Output c = ''stderr'' then ''stderr''
                 else if cfg_Output c = ''file'' then ''file'' else ''stdout'');
          formatter = (if format = ''text'' then TextFormatter (cfg_AddCaller c) (cfg_AddStack c)
                       else JSONFormatter (cfg_AddCaller c) (cfg_AddStack c));
          c' = c\<lparr>cfg_Level := level, cfg_Format := format, cfg_Output := out\<rparr>
      in case (if out = ''file'' then mkdir_error w (path_dir w (cfg_FilePath c)) else None) of
           Some text \<Rightarrow> Inl (Err text)
         | None \<Rightarrow>
             Inr \<lparr>config = c',
                  handler = (if out = ''file''
                             then FileHandler \<lparr>Filename = cfg_FilePath c, MaxSize = cfg_MaxSize c,
                                    MaxBackups = cfg_MaxBackups c, MaxAge = cfg_MaxAge c,
                                    Compress = cfg_Compress c\<rparr> formatter
                             else ConsoleHandler (if out = ''stderr'' then Stderr else Stdout) formatter),
                  logger_fields = Some (next_ref w)\<rparr>)"
  by (auto simp: NewLogger_def Config_Validate_def Let_def NewConsoleHandler_def NewFileHandler_def
        make_Fields_def split: option.splits)

theorem NewLogger_defaults_witness:
  "fst (NewLogger unknown_config example_world)
     = Inr \<lparr>config = DefaultConfig,
            handler = ConsoleHandler Stdout (JSONFormatter True False),
            logger_fields = Some 0\<rparr>
   \<and> fst (NewLogger (DefaultConfig\<lparr>cfg_Output := ''file''\<rparr>) readonly_world)
     = Inl (Err ''mkdir logs: permission denied'')
   \<and> fst (NewLogger unknown_config readonly_world)
     = Inr \<lparr>config = DefaultConfig,
            handler = ConsoleHandler Stdout (JSONFormatter True False),
            logger_fields = Some 0\<rparr>"
  using NewLogger_defaults [of unknown_config example_world]
    NewLogger_defaults [of "DefaultConfig\<lparr>cfg_Output := ''file''\<rparr>" readonly_world]
    NewLogger_defaults [of unknown_config readonly_world]
  by (simp add: unknown_config_def DefaultConfig_def Level_defs readonly_world_def example_world_def)

text \<open>
  C9. An \<open>Info\<close> call with the message "request completed" and the fields status = 200
  and path = "/health", on a logger at level Info with the JSON formatter and the console
  handler on stdout, at 2024-01-02T03:04:05Z. The bytes that reach stdout are the JSON
  object and nothing else: they do not end with a newline (the text formatter appends
  one, the JSON formatter returns the result of \<open>json.Marshal\<close> as it is).
\<close>

theorem json_entry_not_newline_terminated:
  \<open>written (snd (logger_Info json_logger None ''request completed'' (Some 0) request_world)) Stdout
     = ''{"level":"INFO","message":"request completed","path":"/health","status":200,"timestamp":"2024-01-02T03:04:05Z"}''
   \<and> last (written (snd (logger_Info json_logger None ''request completed'' (Some 0) request_world)) Stdout)
       \<noteq> CHR 0x0A\<close>
  by (simp add: logger_Info_def request_written) (simp add: request_world_def example_world_def)

text \<open>
  C10, as the code has it. The text formatter never returns an error, and it returns
  its line for every entry whose error is nil or has an \<open>Error()\<close> that returns; it
  panics exactly when the call \<open>entry.Error.Error()\<close> does. So a console or file
  handler with a text formatter never returns a formatting error: for such an entry,
  what it returns is the error of the write.
\<close>

theorem text_format_never_fails:
  "(\<forall>err. Format (TextFormatter addCaller addStack) w entry \<noteq> Returns (Inl err))
   \<and> (Format (TextFormatter addCaller addStack) w entry = Panics
        \<longleftrightarrow> Error entry = Some NilPointer)
   \<and> (Error entry \<noteq> Some NilPointer \<longrightarrow>
        (\<exists>data. Format (TextFormatter addCaller addStack) w entry = Returns (Inr data))
        \<and> fst (Handle (ConsoleHandler out (TextFormatter addCaller addStack)) entry w)
            = Returns (map_option Err (write_error w out))
        \<and> fst (Handle (FileHandler writer (TextFormatter addCaller addStack)) entry w)
            = Returns (map_option Err (write_error w (Rotating writer))))"
proof -
  have never: "Format (TextFormatter addCaller addStack) w entry \<noteq> Returns (Inl err)" for err
    by (simp add: TextFormatter_Format_def Let_def split: option.splits outcome.splits)
  have returns: "\<exists>data. Format (TextFormatter addCaller addStack) w entry = Returns (Inr data)"
    if "Error entry \<noteq> Some NilPointer"
    using TextFormatter_returns [OF that, of addCaller addStack w] by simp
  show ?thesis
    using never returns Format_Panics [of "TextFormatter addCaller addStack" w entry]
    by (simp add: Handle_text_error del: Handle.simps Format.simps)
qed

theorem text_format_never_fails_witness:
  "Error (fallback_entry (Err ''disk full'') example_time) = Some (Err ''disk full'')
   \<and> (\<exists>data. Format (TextFormatter True True) example_world
                (fallback_entry (Err ''disk full'') example_time) = Returns (Inr data))
   \<and> fst (Handle (ConsoleHandler Stdout (TextFormatter True True))
             (fallback_entry (Err ''disk full'') example_time) example_world) = Returns None"
proof -
  have err: "Error (fallback_entry (Err ''disk full'') example_time) = Some (Err ''disk full'')"
    by (simp add: fallback_entry_def)
  then have nil: "Error (fallback_entry (Err ''disk full'') example_time) \<noteq> Some NilPointer"
    by simp
  note t = text_format_never_fails [of True True example_world
      "fallback_entry (Err ''disk full'') example_time" Stdout]
  show ?thesis
    using t [THEN conjunct2, THEN conjunct2] nil err
    by (simp add: example_world_def del: Handle.simps Format.simps)
qed

text \<open>
  C10 as stated fails for an entry whose error is not nil but holds a nil pointer:
  \<open>Format\<close> calls \<open>entry.Error.Error()\<close>, the call panics, and \<open>Format\<close> returns
  nothing, neither bytes nor a nil error; the panic passes through \<open>Handle\<close>.
\<close>

theorem text_format_never_fails_counterexample:
  "Format (TextFormatter False False) example_world nil_pointer_entry = Panics
   \<and> fst (Handle (ConsoleHandler Stdout (TextFormatter False False)) nil_pointer_entry example_world)
       = Panics"
proof -
  have "Format (TextFormatter False False) example_world nil_pointer_entry = Panics"
    by (simp add: Format_Panics nil_pointer_entry_def del: Format.simps)
  then show ?thesis
    by (simp add: Let_def del: Format.simps)
qed

end
